theory Spec2Isabelle
  imports Complex_Main "HOL-Library.AList"
begin

section \<open>Python values, failures and payloads\<close>

text \<open>
  Every \<^verbatim>\<open>raise\<close>, failed \<^verbatim>\<open>assert\<close> and failing library call of the Python sources is a
  value of \<open>error\<close>; a computation that may fail has the type \<open>error + 'a\<close> with \<open>Inl\<close> for
  the failure.  \<open>AssertionError\<close> carries the message of the \<^verbatim>\<open>assert\<close> statement,
  \<open>KeyError\<close> the missing key, \<open>ClientError\<close> stands for whatever the REST client raises.
\<close>

datatype error =
    KeyError string
  | IndexError
  | TypeError
  | ValueError
  | AttributeError
  | AssertionError string
  | InvalidOperation
  | DivisionByZero
  | Overflow
  | ClientError string

definition ebind :: "error + 'a \<Rightarrow> ('a \<Rightarrow> error + 'b) \<Rightarrow> error + 'b" where
  "ebind m f = (case m of Inl e \<Rightarrow> Inl e | Inr v \<Rightarrow> f v)"

text \<open>
  A decoded JSON payload.  \<open>JNull\<close> is Python's \<^verbatim>\<open>None\<close>; \<open>JObj\<close> is a \<^verbatim>\<open>dict\<close> with string keys,
  kept as an association list in insertion order and read with \<open>map_of\<close>.  JSON numbers with a
  fraction (Python floats) are not part of the model: the venue sends quantities as strings.
\<close>

datatype jval =
    JNull
  | JBool bool
  | JInt int
  | JStr string
  | JArr "jval list"
  | JObj "(string \<times> jval) list"

text \<open>\<^verbatim>\<open>d[key]\<close>\<close>

definition subscript :: "jval \<Rightarrow> string \<Rightarrow> error + jval" where
  "subscript d k =
     (case d of
        JObj kvs \<Rightarrow> (case map_of kvs k of None \<Rightarrow> Inl (KeyError k) | Some v \<Rightarrow> Inr v)
      | _ \<Rightarrow> Inl TypeError)"

text \<open>\<^verbatim>\<open>d.get(key)\<close> and \<^verbatim>\<open>d.get(key, default)\<close>\<close>

definition get_default :: "jval \<Rightarrow> string \<Rightarrow> jval \<Rightarrow> error + jval" where
  "get_default d k dflt =
     (case d of
        JObj kvs \<Rightarrow> (case map_of kvs k of None \<Rightarrow> Inr dflt | Some v \<Rightarrow> Inr v)
      | _ \<Rightarrow> Inl AttributeError)"

definition get :: "jval \<Rightarrow> string \<Rightarrow> error + jval" where
  "get d k = get_default d k JNull"

text \<open>What a \<^verbatim>\<open>for\<close> loop or a comprehension iterates over.\<close>

definition py_iter :: "jval \<Rightarrow> error + jval list" where
  "py_iter v =
     (case v of
        JArr xs \<Rightarrow> Inr xs
      | JObj kvs \<Rightarrow> Inr (map (\<lambda>kv. JStr (fst kv)) kvs)
      | JStr s \<Rightarrow> Inr (map (\<lambda>c. JStr [c]) s)
      | _ \<Rightarrow> Inl TypeError)"

section \<open>Decimal arithmetic\<close>

text \<open>
  A finite \<^verbatim>\<open>decimal.Decimal\<close> is modelled by the rational number it denotes; Python's \<^verbatim>\<open>==\<close>
  on decimals compares these numbers.  The arithmetic operators round their exact result to
  the default context: 28 significant digits, round-half-even, exponents between
  \<open>Etiny\<close> and \<open>Emax\<close>, with the \<^verbatim>\<open>Overflow\<close>, \<^verbatim>\<open>DivisionByZero\<close> and \<^verbatim>\<open>InvalidOperation\<close> traps
  enabled.  The constructor \<^verbatim>\<open>Decimal(x)\<close> does not round.  NaN and the infinities are not part
  of the model.
\<close>

type_synonym decimal = rat

definition Emax :: int where
  "Emax = 999999"

definition Etiny :: int where
  "Etiny = - 1000026"

text \<open>The exponent of the leading digit of a positive number: \<open>\<lfloor>log\<^sub>1\<^sub>0 x\<rfloor>\<close>.\<close>

function adj_up :: "rat \<Rightarrow> int" where
  "adj_up x = (if 10 \<le> x then adj_up (x / 10) + 1 else 0)"
  by pat_completeness auto
termination
proof (relation "measure (\<lambda>x. nat \<lfloor>x\<rfloor>)")
  show "wf (measure (\<lambda>x::rat. nat \<lfloor>x\<rfloor>))" by simp
next
  fix x :: rat
  assume h: "10 \<le> x"
  have "x / 10 \<le> x - 9" using h by simp
  then have "\<lfloor>x / 10\<rfloor> \<le> \<lfloor>x - 9\<rfloor>" by (rule floor_mono)
  also have "\<dots> = \<lfloor>x\<rfloor> - 9" by (metis floor_diff_numeral)
  finally have "\<lfloor>x / 10\<rfloor> < \<lfloor>x\<rfloor>" by simp
  moreover have "10 \<le> \<lfloor>x\<rfloor>" using h by (simp add: le_floor_iff)
  ultimately show "(x / 10, x) \<in> measure (\<lambda>x. nat \<lfloor>x\<rfloor>)" by simp
qed

function adj_down :: "rat \<Rightarrow> int" where
  "adj_down x = (if 0 < x \<and> x < 1 then adj_down (x * 10) - 1 else 0)"
  by pat_completeness auto
termination
proof (relation "measure (\<lambda>x. nat \<lfloor>1 / x\<rfloor>)")
  show "wf (measure (\<lambda>x::rat. nat \<lfloor>1 / x\<rfloor>))" by simp
next
  fix x :: rat
  assume h: "0 < x \<and> x < 1"
  define y where "y = 1 / x"
  have y1: "1 < y" using h by (simp add: y_def)
  have e: "1 / (x * 10) = y / 10" by (simp add: y_def)
  have f1: "1 \<le> \<lfloor>y\<rfloor>" using y1 by (simp add: le_floor_iff)
  have "\<lfloor>y / 10\<rfloor> < \<lfloor>y\<rfloor>"
  proof (cases "y < 10")
    case True
    then have "\<lfloor>y / 10\<rfloor> = 0" using y1 by (simp add: floor_eq_iff)
    then show ?thesis using f1 by simp
  next
    case False
    then have "y / 10 \<le> y - 9" by simp
    then have "\<lfloor>y / 10\<rfloor> \<le> \<lfloor>y - 9\<rfloor>" by (rule floor_mono)
    also have "\<dots> = \<lfloor>y\<rfloor> - 9" by (metis floor_diff_numeral)
    finally show ?thesis by simp
  qed
  then show "(x * 10, x) \<in> measure (\<lambda>x. nat \<lfloor>1 / x\<rfloor>)"
    using f1 unfolding e y_def by simp
qed

declare adj_up.simps [simp del]

declare adj_down.simps [simp del]

definition adjusted :: "decimal \<Rightarrow> int" where
  "adjusted x = (if 1 \<le> \<bar>x\<bar> then adj_up \<bar>x\<bar> else adj_down \<bar>x\<bar>)"

definition round_half_even :: "rat \<Rightarrow> int" where
  "round_half_even y =
     (let f = \<lfloor>y\<rfloor>; d = y - of_int f
      in if d < 1 / 2 then f else if 1 / 2 < d then f + 1 else if even f then f else f + 1)"

text \<open>
  The context's rounding of an exact result (\<^verbatim>\<open>Decimal._fix\<close>): the quantum is the power of ten
  that leaves 28 digits, but not below \<open>Etiny\<close>; a result whose leading digit lies above
  \<open>Emax\<close>, before or after the rounding carry, raises \<^verbatim>\<open>Overflow\<close>.
\<close>

definition dec_fix :: "rat \<Rightarrow> error + decimal" where
  "dec_fix x =
     (if x = 0 then Inr 0
      else let e = adjusted x in
        if Emax < e then Inl Overflow
        else let q = max (e - 27) Etiny; n = round_half_even (x / 10 powi q) in
          if 10 ^ 28 \<le> \<bar>n\<bar> \<and> Emax < e + 1 then Inl Overflow
          else Inr (of_int n * 10 powi q))"

definition dec_add :: "decimal \<Rightarrow> decimal \<Rightarrow> error + decimal" where
  "dec_add x y = dec_fix (x + y)"

definition dec_sub :: "decimal \<Rightarrow> decimal \<Rightarrow> error + decimal" where
  "dec_sub x y = dec_fix (x - y)"

definition dec_div :: "decimal \<Rightarrow> decimal \<Rightarrow> error + decimal" where
  "dec_div x y =
     (if y = 0 then (if x = 0 then Inl InvalidOperation else Inl DivisionByZero)
      else dec_fix (x / y))"

text \<open>
  A number the context leaves as it is: zero, or a number within the exponent range that is
  a multiple of its quantum.  On these the operators are exact.
\<close>

definition representable :: "rat \<Rightarrow> bool" where
  "representable x =
     (x = 0 \<or> (adjusted x \<le> Emax \<and>
        (let y = x / 10 powi (max (adjusted x - 27) Etiny) in of_int \<lfloor>y\<rfloor> = y)))"

subsection \<open>The constructor on payload values\<close>

definition is_space :: "char \<Rightarrow> bool" where
  "is_space c = (let n = (of_char c :: nat) in (9 \<le> n \<and> n \<le> 13) \<or> (28 \<le> n \<and> n \<le> 32))"

definition is_digit :: "char \<Rightarrow> bool" where
  "is_digit c = (let n = (of_char c :: nat) in 48 \<le> n \<and> n \<le> 57)"

definition digits_val :: "string \<Rightarrow> nat" where
  "digits_val ds = foldl (\<lambda>a c. 10 * a + ((of_char c :: nat) - 48)) 0 ds"

definition strip :: "string \<Rightarrow> string" where
  "strip s = rev (dropWhile is_space (rev (dropWhile is_space s)))"

definition split_sign :: "string \<Rightarrow> bool \<times> string" where
  "split_sign s =
     (case s of
        [] \<Rightarrow> (False, [])
      | c # r \<Rightarrow> if c = CHR ''-'' then (True, r) else if c = CHR ''+'' then (False, r) else (False, s))"

text \<open>
  \<^verbatim>\<open>Decimal(str)\<close> on ASCII text: underscores are dropped, surrounding white space is ignored,
  then an optional sign, digits with an optional point, and an optional exponent.  Anything
  else is \<open>None\<close> (the constructor raises \<^verbatim>\<open>InvalidOperation\<close>).  The spellings of NaN
  and of the infinities, which Python accepts, are outside the model and fall under
  \<open>None\<close> as well, and so does a digit that is not ASCII.  A list that spells sign, digits
  and exponent is not modelled either: every list is \<^verbatim>\<open>ValueError\<close>.
\<close>

definition parse_decimal :: "string \<Rightarrow> decimal option" where
  "parse_decimal v =
     (let s = strip (filter (\<lambda>c. c \<noteq> CHR ''_'') v);
          sg = split_sign s;
          ip = takeWhile is_digit (snd sg);
          s2 = dropWhile is_digit (snd sg);
          has_pt = (s2 \<noteq> [] \<and> hd s2 = CHR ''.'');
          fp = (if has_pt then takeWhile is_digit (tl s2) else []);
          s3 = (if has_pt then dropWhile is_digit (tl s2) else s2);
          has_e = (s3 \<noteq> [] \<and> (hd s3 = CHR ''e'' \<or> hd s3 = CHR ''E''));
          esg = (if has_e then split_sign (tl s3) else (False, s3));
          ed = (if has_e then takeWhile is_digit (snd esg) else []);
          s5 = (if has_e then dropWhile is_digit (snd esg) else s3)
      in if (ip = [] \<and> fp = []) \<or> (has_e \<and> ed = []) \<or> s5 \<noteq> [] then None
         else let m = int (digits_val (ip @ fp));
                  e = (if fst esg then - int (digits_val ed) else int (digits_val ed))
                        - int (length fp)
              in Some ((if fst sg then - 1 else 1) * of_int m * 10 powi e))"

definition py_Decimal :: "jval \<Rightarrow> error + decimal" where
  "py_Decimal v =
     (case v of
        JStr s \<Rightarrow> (case parse_decimal s of None \<Rightarrow> Inl InvalidOperation | Some d \<Rightarrow> Inr d)
      | JInt i \<Rightarrow> Inr (of_int i)
      | JBool b \<Rightarrow> Inr (if b then 1 else 0)
      | JArr xs \<Rightarrow> Inl ValueError
      | _ \<Rightarrow> Inl TypeError)"

section \<open>Orders and trades (\<^verbatim>\<open>common.py\<close>)\<close>

text \<open>
  The wrappers hold the raw payload and decode a field each time a property is read.
  A \<^verbatim>\<open>Trade\<close> is its payload.
\<close>

type_synonym Trade = jval

definition commission :: "Trade \<Rightarrow> error + decimal" where
  "commission json = ebind (subscript json ''commission'') py_Decimal"

definition commission_asset :: "Trade \<Rightarrow> error + jval" where
  "commission_asset json = subscript json ''commissionAsset''"

text \<open>\<^verbatim>\<open>OrderWrapper\<close>\<close>

definition amount :: "jval \<Rightarrow> error + decimal" where
  "amount json = ebind (subscript json ''origQty'') py_Decimal"

definition amount_filled :: "jval \<Rightarrow> error + decimal" where
  "amount_filled json = ebind (subscript json ''executedQty'') py_Decimal"

definition quote_amount_filled :: "jval \<Rightarrow> error + decimal" where
  "quote_amount_filled json = ebind (subscript json ''cummulativeQuoteQty'') py_Decimal"

text \<open>
  The key under which a \<^verbatim>\<open>dict\<close> files a value: lists and dicts are unhashable, and \<^verbatim>\<open>True\<close> and
  \<^verbatim>\<open>False\<close> are the keys \<^verbatim>\<open>1\<close> and \<^verbatim>\<open>0\<close>.
\<close>

definition dict_key :: "jval \<Rightarrow> error + jval" where
  "dict_key v =
     (case v of
        JArr xs \<Rightarrow> Inl TypeError
      | JObj kvs \<Rightarrow> Inl TypeError
      | JBool b \<Rightarrow> Inr (JInt (if b then 1 else 0))
      | _ \<Rightarrow> Inr v)"

text \<open>
  \<^verbatim>\<open>collections.defaultdict(Decimal)\<close>: an insertion-ordered dictionary whose \<^verbatim>\<open>d[k]\<close> files
  and returns \<^verbatim>\<open>Decimal()\<close>, which is zero, under a key it does not have.
\<close>

type_synonym fees_dict = "(jval \<times> decimal) list"

definition defaultdict_getitem :: "fees_dict \<Rightarrow> jval \<Rightarrow> decimal \<times> fees_dict" where
  "defaultdict_getitem d k =
     (case map_of d k of
        Some v \<Rightarrow> (v, d)
      | None \<Rightarrow> (0, AList.update k 0 d))"

text \<open>
  One turn of the loop in \<^verbatim>\<open>OrderInfo.__init__\<close>:
  \<^verbatim>\<open>if trade.commission: self._fees[trade.commission_asset] += trade.commission\<close>.
  The augmented assignment reads the entry (filing the default), reads the commission
  again, adds, and stores.
\<close>

definition add_fee :: "fees_dict \<Rightarrow> Trade \<Rightarrow> error + fees_dict" where
  "add_fee d trade =
     ebind (commission trade) (\<lambda>c.
       if c \<noteq> 0 then
         ebind (commission_asset trade) (\<lambda>a.
         ebind (dict_key a) (\<lambda>k.
           let (old, d') = defaultdict_getitem d k in
           ebind (commission trade) (\<lambda>c'.
           ebind (dec_add old c') (\<lambda>v. Inr (AList.update k v d')))))
       else Inr d)"

fun accumulate_fees :: "fees_dict \<Rightarrow> Trade list \<Rightarrow> error + fees_dict" where
  "accumulate_fees d [] = Inr d"
| "accumulate_fees d (trade # rest) =
     (case add_fee d trade of Inl e \<Rightarrow> Inl e | Inr d' \<Rightarrow> accumulate_fees d' rest)"

record OrderInfo =
  json :: jval
  trades :: "Trade list"
  fees :: fees_dict

definition OrderInfo_init :: "jval \<Rightarrow> Trade list \<Rightarrow> error + OrderInfo" where
  "OrderInfo_init j ts =
     ebind (accumulate_fees [] ts) (\<lambda>d. Inr \<lparr>json = j, trades = ts, fees = d\<rparr>)"

definition amount_remaining :: "OrderInfo \<Rightarrow> error + decimal" where
  "amount_remaining order =
     ebind (amount (json order)) (\<lambda>a.
     ebind (amount_filled (json order)) (\<lambda>f. dec_sub a f))"

definition fill_price :: "OrderInfo \<Rightarrow> error + decimal option" where
  "fill_price order =
     ebind (amount_filled (json order)) (\<lambda>f.
       if f \<noteq> 0 then
         ebind (quote_amount_filled (json order)) (\<lambda>q.
         ebind (amount_filled (json order)) (\<lambda>f'.
         ebind (dec_div q f') (\<lambda>r. Inr (Some r))))
       else Inr None)"

text \<open>
  What the fees claim compares with: Python's \<^verbatim>\<open>sum\<close> over the commissions of a list of
  trades, a left-to-right sum of decimals from a start value, and the trades whose
  commission asset is filed under a given key.
\<close>

fun sum_commissions :: "decimal \<Rightarrow> Trade list \<Rightarrow> error + decimal" where
  "sum_commissions s [] = Inr s"
| "sum_commissions s (trade # rest) =
     (case commission trade of
        Inl e \<Rightarrow> Inl e
      | Inr c \<Rightarrow> (case dec_add s c of Inl e \<Rightarrow> Inl e | Inr s' \<Rightarrow> sum_commissions s' rest))"

definition has_asset :: "jval \<Rightarrow> Trade \<Rightarrow> bool" where
  "has_asset k trade = (ebind (commission_asset trade) dict_key = Inr k)"

definition nonzero_commission :: "Trade \<Rightarrow> bool" where
  "nonzero_commission trade = (case commission trade of Inl e \<Rightarrow> False | Inr c \<Rightarrow> c \<noteq> 0)"

text \<open>Every partial sum of \<open>s + c\<^sub>1 + \<dots> + c\<^sub>n\<close> is left as it is by the context.\<close>

fun sums_exact :: "rat \<Rightarrow> rat list \<Rightarrow> bool" where
  "sums_exact s [] = True"
| "sums_exact s (c # cs) = (representable (s + c) \<and> sums_exact (s + c) cs)"

text \<open>\<^verbatim>\<open>CreatedOrder\<close>.  The helper \<^verbatim>\<open>helpers.order_status_is_open\<close> is a parameter.\<close>

definition CreatedOrder_status :: "jval \<Rightarrow> error + jval" where
  "CreatedOrder_status payload = get payload ''status''"

definition CreatedOrder_is_open :: "(jval \<Rightarrow> error + bool) \<Rightarrow> jval \<Rightarrow> error + bool" where
  "CreatedOrder_is_open order_status_is_open payload =
     ebind (CreatedOrder_status payload) (\<lambda>st.
       if st = JNull then Inl (AssertionError ''status not set'')
       else order_status_is_open st)"

text \<open>
  Modelled from the spec: \<^verbatim>\<open>helpers.order_status_is_open\<close>, whose module is not among the
  sources.  The spec gives the table: NEW, PARTIALLY_FILLED and PENDING are open;
  FILLED, CANCELED, REJECTED and EXPIRED are closed.  The spec does not say what a status
  outside the table gives; here it is an error.
\<close>

definition order_status_is_open_spec :: "jval \<Rightarrow> error + bool" where
  "order_status_is_open_spec st =
     (case map_of
        [(JStr ''NEW'', True), (JStr ''PARTIALLY_FILLED'', True), (JStr ''PENDING'', True),
         (JStr ''FILLED'', False), (JStr ''CANCELED'', False), (JStr ''REJECTED'', False),
         (JStr ''EXPIRED'', False)] st of
        None \<Rightarrow> Inl (AssertionError ''No mapping for order status'')
      | Some b \<Rightarrow> Inr b)"

subsection \<open>OCO order groups\<close>

definition digit_char :: "nat \<Rightarrow> char" where
  "digit_char d = ''0123456789'' ! d"

function str_of_nat :: "nat \<Rightarrow> string" where
  "str_of_nat n =
     (if n < 10 then [digit_char n] else str_of_nat (n div 10) @ [digit_char (n mod 10)])"
  by pat_completeness auto
termination
  by (relation "measure (\<lambda>n. n)") simp_all

declare str_of_nat.simps [simp del]

text \<open>
  \<^verbatim>\<open>str(x)\<close> for the payload values an id can be.  The text of a list or a dict is not
  modelled; \<open>Unmodelled\<close> marks it.
\<close>

datatype 'a modelled = Modelled 'a | Unmodelled

definition py_str :: "jval \<Rightarrow> string modelled" where
  "py_str v =
     (case v of
        JStr s \<Rightarrow> Modelled s
      | JInt i \<Rightarrow> Modelled (if i < 0 then CHR ''-'' # str_of_nat (nat (- i)) else str_of_nat (nat i))
      | JBool b \<Rightarrow> Modelled (if b then ''True'' else ''False'')
      | JNull \<Rightarrow> Modelled ''None''
      | _ \<Rightarrow> Unmodelled)"

text \<open>
  The comprehension \<^verbatim>\<open>[str(order["orderId"]) for order in reports if order["type"] in types]\<close>.
\<close>

fun order_ids :: "string list \<Rightarrow> jval list \<Rightarrow> error + string modelled list" where
  "order_ids types [] = Inr []"
| "order_ids types (order # rest) =
     (case subscript order ''type'' of
        Inl e \<Rightarrow> Inl e
      | Inr t \<Rightarrow>
          if t \<in> set (map JStr types) then
            (case subscript order ''orderId'' of
               Inl e \<Rightarrow> Inl e
             | Inr i \<Rightarrow> (case order_ids types rest of
                          Inl e \<Rightarrow> Inl e
                        | Inr ids \<Rightarrow> Inr (py_str i # ids)))
          else order_ids types rest)"

definition order_reports :: "jval \<Rightarrow> error + jval list" where
  "order_reports payload = ebind (get_default payload ''orderReports'' (JArr [])) py_iter"

definition first_id :: "string list \<Rightarrow> jval \<Rightarrow> error + string modelled" where
  "first_id types payload =
     ebind (order_reports payload) (\<lambda>reports.
     ebind (order_ids types reports) (\<lambda>ids.
       case ids of [] \<Rightarrow> Inl IndexError | i # rest \<Rightarrow> Inr i))"

definition limit_order_id :: "jval \<Rightarrow> error + string modelled" where
  "limit_order_id payload = first_id [''LIMIT'', ''LIMIT_MAKER''] payload"

definition stop_loss_order_id :: "jval \<Rightarrow> error + string modelled" where
  "stop_loss_order_id payload = first_id [''STOP_LOSS'', ''STOP_LOSS_LIMIT''] payload"

definition has_type :: "string list \<Rightarrow> jval \<Rightarrow> bool" where
  "has_type types order =
     (case subscript order ''type'' of Inl e \<Rightarrow> False | Inr t \<Rightarrow> t \<in> set (map JStr types))"

section \<open>Pairs and contract types (\<^verbatim>\<open>pair.py\<close>, \<^verbatim>\<open>contract.py\<close>)\<close>

datatype BinanceContractType =
    PERPETUAL
  | CURRENT_MONTH
  | NEXT_MONTH
  | CURRENT_QUARTER
  | NEXT_QUARTER
  | PERPETUAL_DELIVERING

fun contract_value :: "BinanceContractType \<Rightarrow> string" where
  "contract_value PERPETUAL = ''PERPETUAL''"
| "contract_value CURRENT_MONTH = ''CURRENT_MONTH''"
| "contract_value NEXT_MONTH = ''NEXT_MONTH''"
| "contract_value CURRENT_QUARTER = ''CURRENT_QUARTER''"
| "contract_value NEXT_QUARTER = ''NEXT_QUARTER''"
| "contract_value PERPETUAL_DELIVERING = ''PERPETUAL_DELIVERING''"

text \<open>\<^verbatim>\<open>BinanceContractType(x)\<close>: the member whose value is \<open>x\<close>, or \<^verbatim>\<open>ValueError\<close>.\<close>

definition BinanceContractType_of :: "jval \<Rightarrow> error + BinanceContractType" where
  "BinanceContractType_of v =
     (case map_of
        (map (\<lambda>c. (JStr (contract_value c), c))
          [PERPETUAL, CURRENT_MONTH, NEXT_MONTH, CURRENT_QUARTER, NEXT_QUARTER,
           PERPETUAL_DELIVERING]) v of
        None \<Rightarrow> Inl ValueError
      | Some c \<Rightarrow> Inr c)"

text \<open>
  The dataclasses check no field types, so a field holds whatever value it was given: the
  fields built from a payload are payload values.
\<close>

record Pair =
  base_symbol :: jval
  quote_symbol :: jval

record FuturesPair = Pair +
  symbol :: jval
  contract_type :: BinanceContractType
  delivery_date :: jval

record PairInfoEx =
  base_precision :: int
  quote_precision :: int
  permissions :: jval

record FuturesPairInfoEx =
  fut_base_precision :: int
  fut_quote_precision :: int
  fut_contract_type :: BinanceContractType
  fut_delivery_date :: jval
  fut_permissions :: jval

section \<open>The exchange facades (\<^verbatim>\<open>exchange.py\<close>)\<close>

text \<open>
  What the facades use and the sources do not contain is a parameter, collected in \<open>env\<close>:
  the REST client's \<^verbatim>\<open>get_exchange_info\<close>, whose answer may depend on how many requests
  came before; \<^verbatim>\<open>helpers.pair_to_order_book_symbol\<close> on spot and on futures pairs; the
  \<^verbatim>\<open>get_channel\<close> functions of the \<^verbatim>\<open>klines\<close>, \<^verbatim>\<open>order_book\<close> and \<^verbatim>\<open>trades\<close> modules; and the
  decimal library's \<^verbatim>\<open>Decimal.log10\<close>.
\<close>

record env =
  get_exchange_info :: "nat \<Rightarrow> jval \<Rightarrow> error + jval"
  pair_to_order_book_symbol :: "Pair \<Rightarrow> error + string"
  futures_pair_to_order_book_symbol :: "FuturesPair \<Rightarrow> error + string"
  klines_get_channel :: "Pair \<Rightarrow> string \<Rightarrow> error + string"
  order_book_get_channel :: "Pair \<Rightarrow> jval \<Rightarrow> error + string"
  trades_get_channel :: "Pair \<Rightarrow> error + string"
  log10 :: "decimal \<Rightarrow> error + decimal"

text \<open>
  An event source is an object: it is known by its reference, the index at which the
  factory's product was allocated.  The allocation records the channel it was made for.
\<close>

datatype event_source =
    KlinesSource Pair
  | OrderBookSource Pair
  | TradesSource Pair

text \<open>
  Modelled from the spec: the websocket client's channel registry
  (\<^verbatim>\<open>get_channel_event_source\<close>, \<^verbatim>\<open>set_channel_event_source\<close>), whose module is not among the
  sources: a map from the channel key to the event source registered for it.
\<close>

record WebSocketClient =
  channels :: "(string \<times> nat) list"

definition get_channel_event_source :: "WebSocketClient \<Rightarrow> string \<Rightarrow> nat option" where
  "get_channel_event_source ws channel = map_of (channels ws) channel"

definition set_channel_event_source :: "WebSocketClient \<Rightarrow> string \<Rightarrow> nat \<Rightarrow> WebSocketClient" where
  "set_channel_event_source ws channel es = ws\<lparr>channels := AList.update channel es (channels ws)\<rparr>"

text \<open>
  The state of a facade and of the objects it shares: the lazily created websocket client,
  the pair-info cache, the subscriptions held by the dispatcher (in the order they were
  made), the event sources allocated so far with the channel each was made for, the number
  of websocket clients constructed, and the exchange-info requests issued (their symbol
  argument, \<open>JNull\<close> for none).  The last three only record what happened.
\<close>

record ('h, 'k, 'v) exchange =
  websocket :: "WebSocketClient option"
  pair_info_cache :: "'k \<rightharpoonup> 'v"
  dispatcher :: "(nat \<times> 'h) list"
  event_sources :: "(string \<times> event_source) list"
  ws_clients_created :: nat
  requests :: "jval list"

type_synonym 'h SpotExchange = "('h, Pair, PairInfoEx) exchange"

type_synonym 'h FuturesExchange = "('h, FuturesPair, FuturesPairInfoEx) exchange"

definition new_exchange :: "('h, 'k, 'v) exchange" where
  "new_exchange =
     \<lparr>websocket = None, pair_info_cache = Map.empty, dispatcher = [], event_sources = [],
      ws_clients_created = 0, requests = []\<rparr>"

subsection \<open>Subscriptions\<close>

text \<open>
  \<^verbatim>\<open>_get_ws_client\<close> and \<^verbatim>\<open>_subscribe_to_ws_channel_events\<close> read the same in
  \<^verbatim>\<open>SpotExchange\<close> and \<^verbatim>\<open>FuturesExchange\<close>, as do the three subscription calls.
\<close>

definition get_ws_client ::
  "('h, 'k, 'v) exchange \<Rightarrow> WebSocketClient \<times> ('h, 'k, 'v) exchange" where
  "get_ws_client s =
     (case websocket s of
        None \<Rightarrow>
          (\<lparr>channels = []\<rparr>,
           s\<lparr>websocket := Some \<lparr>channels = []\<rparr>, ws_clients_created := ws_clients_created s + 1\<rparr>)
      | Some ws \<Rightarrow> (ws, s))"

definition subscribe_to_ws_channel_events ::
  "('h, 'k, 'v) exchange \<Rightarrow> string \<Rightarrow> event_source \<Rightarrow> 'h \<Rightarrow> ('h, 'k, 'v) exchange" where
  "subscribe_to_ws_channel_events s channel event_src_factory event_handler =
     (let (ws_cli, s1) = get_ws_client s in
      case get_channel_event_source ws_cli channel of
        Some event_source \<Rightarrow>
          s1\<lparr>dispatcher := dispatcher s1 @ [(event_source, event_handler)]\<rparr>
      | None \<Rightarrow>
          (let event_source = length (event_sources s1) in
           s1\<lparr>event_sources := event_sources s1 @ [(channel, event_src_factory)],
              websocket := Some (set_channel_event_source ws_cli channel event_source),
              dispatcher := dispatcher s1 @ [(event_source, event_handler)]\<rparr>))"

text \<open>The dictionary of \<^verbatim>\<open>subscribe_to_bar_events\<close>, in the order it is written.\<close>

definition legacy_durations :: "(int \<times> string) list" where
  "legacy_durations =
     [(1, ''1s''), (60, ''1m''), (3 * 60, ''3m''), (5 * 60, ''5m''), (15 * 60, ''15m''),
      (30 * 60, ''30m''), (3600, ''1h''), (2 * 3600, ''2h''), (4 * 3600, ''4h''),
      (6 * 3600, ''6h''), (8 * 3600, ''8h''), (12 * 3600, ''12h''), (86400, ''1d''),
      (3 * 86400, ''3d''), (7 * 86400, ''1w''), (31 * 86400, ''1M'')]"

definition interval_table :: "(jval \<times> string) list" where
  "interval_table =
     map (\<lambda>(n, tok). (JInt n, tok)) legacy_durations
     @ map (\<lambda>(n, tok). (JStr tok, tok)) legacy_durations"

definition subscribe_to_bar_events ::
  "env \<Rightarrow> ('h, 'k, 'v) exchange \<Rightarrow> Pair \<Rightarrow> jval \<Rightarrow> 'h \<Rightarrow> (error + unit) \<times> ('h, 'k, 'v) exchange" where
  "subscribe_to_bar_events E s pair bar_duration event_handler =
     (case dict_key bar_duration of
        Inl e \<Rightarrow> (Inl e, s)
      | Inr k \<Rightarrow>
          (case map_of interval_table k of
             None \<Rightarrow> (Inl (AssertionError ''Invalid bar_duration''), s)
           | Some interval \<Rightarrow>
               (case klines_get_channel E pair interval of
                  Inl e \<Rightarrow> (Inl e, s)
                | Inr channel \<Rightarrow>
                    (Inr (), subscribe_to_ws_channel_events s channel (KlinesSource pair)
                               event_handler))))"

definition subscribe_to_order_book_events ::
  "env \<Rightarrow> ('h, 'k, 'v) exchange \<Rightarrow> Pair \<Rightarrow> 'h \<Rightarrow> jval \<Rightarrow> (error + unit) \<times> ('h, 'k, 'v) exchange" where
  "subscribe_to_order_book_events E s pair event_handler depth =
     (case order_book_get_channel E pair depth of
        Inl e \<Rightarrow> (Inl e, s)
      | Inr channel \<Rightarrow>
          (Inr (), subscribe_to_ws_channel_events s channel (OrderBookSource pair) event_handler))"

definition subscribe_to_trade_events ::
  "env \<Rightarrow> ('h, 'k, 'v) exchange \<Rightarrow> Pair \<Rightarrow> 'h \<Rightarrow> (error + unit) \<times> ('h, 'k, 'v) exchange" where
  "subscribe_to_trade_events E s pair event_handler =
     (case trades_get_channel E pair of
        Inl e \<Rightarrow> (Inl e, s)
      | Inr channel \<Rightarrow>
          (Inr (), subscribe_to_ws_channel_events s channel (TradesSource pair) event_handler))"

subsection \<open>Pair metadata\<close>

text \<open>\<^verbatim>\<open>len(x)\<close>, \<^verbatim>\<open>x[0]\<close> and the truth value of a payload value.\<close>

definition py_len :: "jval \<Rightarrow> error + nat" where
  "py_len v =
     (case v of
        JArr xs \<Rightarrow> Inr (length xs)
      | JObj kvs \<Rightarrow> Inr (length kvs)
      | JStr s \<Rightarrow> Inr (length s)
      | _ \<Rightarrow> Inl TypeError)"

definition index0 :: "jval \<Rightarrow> error + jval" where
  "index0 v =
     (case v of
        JArr xs \<Rightarrow> (case xs of [] \<Rightarrow> Inl IndexError | x # rest \<Rightarrow> Inr x)
      | JStr s \<Rightarrow> (case s of [] \<Rightarrow> Inl IndexError | c # rest \<Rightarrow> Inr (JStr [c]))
      | JObj kvs \<Rightarrow> Inl (KeyError ''0'')
      | _ \<Rightarrow> Inl TypeError)"

definition truthy :: "jval \<Rightarrow> bool" where
  "truthy v =
     (case v of
        JNull \<Rightarrow> False
      | JBool b \<Rightarrow> b
      | JInt i \<Rightarrow> i \<noteq> 0
      | JStr s \<Rightarrow> s \<noteq> []
      | JArr xs \<Rightarrow> xs \<noteq> []
      | JObj kvs \<Rightarrow> kvs \<noteq> [])"

text \<open>
  A comprehension or a chain of lazy \<^verbatim>\<open>filter\<close>s, element by element: the elements for which
  the test holds, or the first failure of the test.
\<close>

fun filter_err :: "('a \<Rightarrow> error + bool) \<Rightarrow> 'a list \<Rightarrow> error + 'a list" where
  "filter_err p [] = Inr []"
| "filter_err p (x # xs) =
     (case p x of
        Inl e \<Rightarrow> Inl e
      | Inr b \<Rightarrow> (case filter_err p xs of
                   Inl e \<Rightarrow> Inl e
                 | Inr ys \<Rightarrow> Inr (if b then x # ys else ys)))"

definition field_is :: "string \<Rightarrow> jval \<Rightarrow> jval \<Rightarrow> error + bool" where
  "field_is key v x = ebind (subscript x key) (\<lambda>w. Inr (w = v))"

definition get_filter_from_symbol_info :: "jval \<Rightarrow> string \<Rightarrow> error + jval" where
  "get_filter_from_symbol_info symbol_info filter_type =
     ebind (subscript symbol_info ''filters'') (\<lambda>filters.
     ebind (py_iter filters) (\<lambda>fs.
     ebind (filter_err (field_is ''filterType'' (JStr filter_type)) fs) (\<lambda>price_filters.
       case price_filters of [] \<Rightarrow> Inr JNull | f # rest \<Rightarrow> Inr f)))"

text \<open>\<^verbatim>\<open>int(d)\<close> on a decimal truncates towards zero.\<close>

definition py_int :: "decimal \<Rightarrow> int" where
  "py_int d = (if 0 \<le> d then \<lfloor>d\<rfloor> else - \<lfloor>- d\<rfloor>)"

definition get_precision_from_step_size :: "env \<Rightarrow> jval \<Rightarrow> error + int" where
  "get_precision_from_step_size E step_size =
     ebind (py_Decimal step_size) (\<lambda>d.
     ebind (log10 E d) (\<lambda>l.
     ebind (dec_fix (- l)) (\<lambda>m.
     ebind (log10 E 10) (\<lambda>l10.
     ebind (dec_div m l10) (\<lambda>r. Inr (py_int r))))))"

definition py_assert :: "bool \<Rightarrow> string \<Rightarrow> error + unit" where
  "py_assert b msg = (if b then Inr () else Inl (AssertionError msg))"

text \<open>
  The body of \<^verbatim>\<open>SpotExchange.get_pair_info\<close> after the request, up to the cache update.
  The messages of the two filter assertions end with the text of the pair in the source
  (\<^verbatim>\<open>for {pair}\<close>); the model keeps their fixed part, here and for the futures facade.
\<close>

definition spot_pair_info :: "env \<Rightarrow> jval \<Rightarrow> error + PairInfoEx" where
  "spot_pair_info E exchange_info =
     ebind (subscript exchange_info ''symbols'') (\<lambda>symbols.
     ebind (py_len symbols) (\<lambda>n.
     ebind (py_assert (n = 1) ''More than 1 symbol found'') (\<lambda>_.
     ebind (index0 symbols) (\<lambda>symbol_info.
     ebind (get_filter_from_symbol_info symbol_info ''PRICE_FILTER'') (\<lambda>price_filter.
     ebind (py_assert (truthy price_filter) ''PRICE_FILTER not found'') (\<lambda>_.
     ebind (get_filter_from_symbol_info symbol_info ''LOT_SIZE'') (\<lambda>lot_size.
     ebind (py_assert (truthy lot_size) ''LOT_SIZE not found'') (\<lambda>_.
     ebind (subscript lot_size ''stepSize'') (\<lambda>step.
     ebind (get_precision_from_step_size E step) (\<lambda>bp.
     ebind (subscript price_filter ''tickSize'') (\<lambda>tick.
     ebind (get_precision_from_step_size E tick) (\<lambda>qp.
     ebind (get symbol_info ''permissions'') (\<lambda>perms.
       Inr \<lparr>base_precision = bp, quote_precision = qp, permissions = perms\<rparr>)))))))))))))"

definition spot_get_pair_info ::
  "env \<Rightarrow> 'h SpotExchange \<Rightarrow> Pair \<Rightarrow> (error + PairInfoEx) \<times> 'h SpotExchange" where
  "spot_get_pair_info E s pair =
     (case pair_info_cache s pair of
        Some ret \<Rightarrow> (Inr ret, s)
      | None \<Rightarrow>
          (case pair_to_order_book_symbol E pair of
             Inl e \<Rightarrow> (Inl e, s)
           | Inr symb \<Rightarrow>
               (let s1 = s\<lparr>requests := requests s @ [JStr symb]\<rparr> in
                case ebind (get_exchange_info E (length (requests s)) (JStr symb))
                       (spot_pair_info E) of
                  Inl e \<Rightarrow> (Inl e, s1)
                | Inr ret \<Rightarrow>
                    (Inr ret, s1\<lparr>pair_info_cache := (pair_info_cache s1)(pair \<mapsto> ret)\<rparr>))))"

text \<open>
  The filters of \<^verbatim>\<open>FuturesExchange.get_pair\<close>: an argument that is \<^verbatim>\<open>None\<close> filters nothing,
  and the tests run in the order pair, contract type, symbol, each only where the one before
  it held.
\<close>

definition and_then :: "('a \<Rightarrow> error + bool) \<Rightarrow> ('a \<Rightarrow> error + bool) \<Rightarrow> 'a \<Rightarrow> error + bool" where
  "and_then p q x = ebind (p x) (\<lambda>b. if b then q x else Inr False)"

definition opt_field_is :: "string \<Rightarrow> jval option \<Rightarrow> jval \<Rightarrow> error + bool" where
  "opt_field_is key v x = (case v of None \<Rightarrow> Inr True | Some w \<Rightarrow> field_is key w x)"

definition get_pair_matches ::
  "string option \<Rightarrow> string option \<Rightarrow> BinanceContractType option \<Rightarrow> jval \<Rightarrow> error + bool" where
  "get_pair_matches symb pair ct =
     and_then (opt_field_is ''pair'' (map_option JStr pair))
       (and_then (opt_field_is ''contractType'' (map_option (\<lambda>c. JStr (contract_value c)) ct))
          (opt_field_is ''symbol'' (map_option JStr symb)))"

definition make_futures_pair :: "jval \<Rightarrow> error + FuturesPair" where
  "make_futures_pair symbol_info =
     ebind (subscript symbol_info ''symbol'') (\<lambda>sy.
     ebind (subscript symbol_info ''baseAsset'') (\<lambda>b.
     ebind (subscript symbol_info ''quoteAsset'') (\<lambda>q.
     ebind (subscript symbol_info ''contractType'') (\<lambda>c.
     ebind (BinanceContractType_of c) (\<lambda>ct.
     ebind (get symbol_info ''deliveryDate'') (\<lambda>dd.
       Inr \<lparr>base_symbol = b, quote_symbol = q, symbol = sy, contract_type = ct,
            delivery_date = dd\<rparr>))))))"

definition one_symbol :: "jval list \<Rightarrow> error + jval" where
  "one_symbol symbols =
     ebind (py_assert (0 < length symbols) ''Symbol not found'') (\<lambda>_.
     ebind (py_assert (length symbols = 1) ''More than 1 symbol found'') (\<lambda>_.
       case symbols of [] \<Rightarrow> Inl IndexError | x # rest \<Rightarrow> Inr x))"

definition pair_of_catalog ::
  "string option \<Rightarrow> string option \<Rightarrow> BinanceContractType option \<Rightarrow> jval \<Rightarrow> error + FuturesPair" where
  "pair_of_catalog symb pair ct exchange_info =
     ebind (subscript exchange_info ''symbols'') (\<lambda>symbols.
     ebind (py_iter symbols) (\<lambda>xs.
     ebind (filter_err (get_pair_matches symb pair ct) xs) (\<lambda>found.
     ebind (one_symbol found) make_futures_pair)))"

definition get_pair ::
  "env \<Rightarrow> 'h FuturesExchange \<Rightarrow> string option \<Rightarrow> string option \<Rightarrow> BinanceContractType option
     \<Rightarrow> (error + FuturesPair) \<times> 'h FuturesExchange" where
  "get_pair E s symb pair ct =
     (ebind (get_exchange_info E (length (requests s)) JNull) (pair_of_catalog symb pair ct),
      s\<lparr>requests := requests s @ [JNull]\<rparr>)"

definition futures_pair_info :: "env \<Rightarrow> FuturesPair \<Rightarrow> jval \<Rightarrow> error + FuturesPairInfoEx" where
  "futures_pair_info E futures_pair exchange_info =
     ebind (subscript exchange_info ''symbols'') (\<lambda>symbols.
     ebind (py_iter symbols) (\<lambda>xs.
     ebind (filter_err
              (and_then
                 (\<lambda>x. ebind (subscript x ''symbol'') (\<lambda>w.
                        ebind (futures_pair_to_order_book_symbol E futures_pair) (\<lambda>sy.
                          Inr (w = JStr sy))))
                 (field_is ''contractType'' (JStr (contract_value (contract_type futures_pair)))))
              xs) (\<lambda>found.
     ebind (one_symbol found) (\<lambda>symbol_info.
     ebind (get_filter_from_symbol_info symbol_info ''PRICE_FILTER'') (\<lambda>price_filter.
     ebind (py_assert (truthy price_filter) ''PRICE_FILTER not found'') (\<lambda>_.
     ebind (get_filter_from_symbol_info symbol_info ''LOT_SIZE'') (\<lambda>lot_size.
     ebind (py_assert (truthy lot_size) ''LOT_SIZE not found'') (\<lambda>_.
     ebind (subscript lot_size ''stepSize'') (\<lambda>step.
     ebind (get_precision_from_step_size E step) (\<lambda>bp.
     ebind (subscript price_filter ''tickSize'') (\<lambda>tick.
     ebind (get_precision_from_step_size E tick) (\<lambda>qp.
     ebind (subscript symbol_info ''contractType'') (\<lambda>c.
     ebind (BinanceContractType_of c) (\<lambda>ct.
     ebind (get symbol_info ''deliveryDate'') (\<lambda>dd.
     ebind (get symbol_info ''permissions'') (\<lambda>perms.
       Inr \<lparr>fut_base_precision = bp, fut_quote_precision = qp, fut_contract_type = ct,
            fut_delivery_date = dd, fut_permissions = perms\<rparr>))))))))))))))))"

definition futures_get_pair_info ::
  "env \<Rightarrow> 'h FuturesExchange \<Rightarrow> FuturesPair
     \<Rightarrow> (error + FuturesPairInfoEx) \<times> 'h FuturesExchange" where
  "futures_get_pair_info E s futures_pair =
     (case pair_info_cache s futures_pair of
        Some ret \<Rightarrow> (Inr ret, s)
      | None \<Rightarrow>
          (let s1 = s\<lparr>requests := requests s @ [JNull]\<rparr> in
           case ebind (get_exchange_info E (length (requests s)) JNull)
                  (futures_pair_info E futures_pair) of
             Inl e \<Rightarrow> (Inl e, s1)
           | Inr ret \<Rightarrow>
               (Inr ret, s1\<lparr>pair_info_cache := (pair_info_cache s1)(futures_pair \<mapsto> ret)\<rparr>)))"

subsection \<open>Sequences of calls\<close>

text \<open>
  A caller makes subscription calls one after the other; a call that raises leaves the
  facade as it was and the caller may go on.
\<close>

datatype 'h subscription =
    Bars Pair jval 'h
  | OrderBook Pair 'h jval
  | Trades Pair 'h

fun subscribe ::
  "env \<Rightarrow> ('h, 'k, 'v) exchange \<Rightarrow> 'h subscription \<Rightarrow> (error + unit) \<times> ('h, 'k, 'v) exchange" where
  "subscribe E s (Bars pair bar_duration h) = subscribe_to_bar_events E s pair bar_duration h"
| "subscribe E s (OrderBook pair h depth) = subscribe_to_order_book_events E s pair h depth"
| "subscribe E s (Trades pair h) = subscribe_to_trade_events E s pair h"

definition subscribe_all ::
  "env \<Rightarrow> ('h, 'k, 'v) exchange \<Rightarrow> 'h subscription list \<Rightarrow> ('h, 'k, 'v) exchange" where
  "subscribe_all E s calls = foldl (\<lambda>s c. snd (subscribe E s c)) s calls"

text \<open>The channel key a call asks for, and the handler it brings.\<close>

fun channel_of :: "env \<Rightarrow> 'h subscription \<Rightarrow> error + string" where
  "channel_of E (Bars pair bar_duration h) =
     ebind (dict_key bar_duration) (\<lambda>k.
       case map_of interval_table k of
         None \<Rightarrow> Inl (AssertionError ''Invalid bar_duration'')
       | Some interval \<Rightarrow> klines_get_channel E pair interval)"
| "channel_of E (OrderBook pair h depth) = order_book_get_channel E pair depth"
| "channel_of E (Trades pair h) = trades_get_channel E pair"

fun handler_of :: "'h subscription \<Rightarrow> 'h" where
  "handler_of (Bars pair bar_duration h) = h"
| "handler_of (OrderBook pair h depth) = h"
| "handler_of (Trades pair h) = h"

fun subscribed :: "env \<Rightarrow> 'h subscription list \<Rightarrow> (string \<times> 'h) list" where
  "subscribed E [] = []"
| "subscribed E (c # calls) =
     (case channel_of E c of
        Inl e \<Rightarrow> subscribed E calls
      | Inr k \<Rightarrow> (k, handler_of c) # subscribed E calls)"

text \<open>The event source registered for a channel key, if any.\<close>

definition registered :: "('h, 'k, 'v) exchange \<Rightarrow> string \<Rightarrow> nat option" where
  "registered s k =
     (case websocket s of None \<Rightarrow> None | Some ws \<Rightarrow> get_channel_event_source ws k)"

definition spot_lookups :: "env \<Rightarrow> 'h SpotExchange \<Rightarrow> Pair list \<Rightarrow> 'h SpotExchange" where
  "spot_lookups E s pairs = foldl (\<lambda>s p. snd (spot_get_pair_info E s p)) s pairs"

definition futures_lookups ::
  "env \<Rightarrow> 'h FuturesExchange \<Rightarrow> FuturesPair list \<Rightarrow> 'h FuturesExchange" where
  "futures_lookups E s pairs = foldl (\<lambda>s p. snd (futures_get_pair_info E s p)) s pairs"

definition all_representable :: "fees_dict \<Rightarrow> bool" where
  "all_representable d = (\<forall>k v. map_of d k = Some v \<longrightarrow> representable v)"

definition example_trades :: "Trade list" where
  "example_trades =
     [JObj [(''commission'', JStr ''0.1''), (''commissionAsset'', JStr ''BNB'')],
      JObj [(''commission'', JStr ''0.00000000''), (''commissionAsset'', JStr ''BNB'')],
      JObj [(''commission'', JStr ''0.2''), (''commissionAsset'', JStr ''BNB'')],
      JObj [(''commission'', JStr ''0''), (''commissionAsset'', JStr ''ETH'')]]"

definition example_oco :: jval where
  "example_oco =
     JObj [(''orderListId'', JInt 0), (''listOrderStatus'', JStr ''EXECUTING''),
       (''orderReports'',
        JArr [JObj [(''orderId'', JInt 4), (''type'', JStr ''STOP_LOSS'')],
              JObj [(''orderId'', JInt 5), (''type'', JStr ''LIMIT_MAKER'')]])]"

definition example_oco_stop_only :: jval where
  "example_oco_stop_only =
     JObj [(''orderListId'', JInt 0),
       (''orderReports'', JArr [JObj [(''orderId'', JInt 4), (''type'', JStr ''STOP_LOSS'')]])]"

definition entry :: "string \<Rightarrow> string \<Rightarrow> string \<Rightarrow> string \<Rightarrow> string \<Rightarrow> int \<Rightarrow> jval" where
  "entry sy p c b q dd =
     JObj [(''symbol'', JStr sy), (''pair'', JStr p), (''contractType'', JStr c),
           (''baseAsset'', JStr b), (''quoteAsset'', JStr q), (''deliveryDate'', JInt dd),
           (''filters'',
            JArr [JObj [(''filterType'', JStr ''PRICE_FILTER''), (''tickSize'', JStr ''0.01'')],
                  JObj [(''filterType'', JStr ''LOT_SIZE''), (''stepSize'', JStr ''0.001'')]])]"

definition example_catalog :: jval where
  "example_catalog =
     JObj [(''symbols'',
       JArr [entry ''ABCUSDT'' ''ABCUSDT'' ''PERPETUAL'' ''ABC'' ''USDT'' 4133404800000,
             entry ''ABCUSDT_240329'' ''ABCUSDT'' ''CURRENT_QUARTER'' ''ABC'' ''USDT'' 1711699200000,
             entry ''XYZUSDT'' ''XYZUSDT'' ''PERPETUAL'' ''XYZ'' ''USDT'' 4133404800000])]"

definition example_spot_info :: jval where
  "example_spot_info =
     JObj [(''symbols'',
       JArr [JObj [(''symbol'', JStr ''BTCUSDT''), (''permissions'', JArr [JStr ''SPOT'']),
         (''filters'',
          JArr [JObj [(''filterType'', JStr ''PRICE_FILTER''), (''tickSize'', JStr ''0.01'')],
                JObj [(''filterType'', JStr ''LOT_SIZE''), (''stepSize'', JStr ''0.00001'')]])]])]"

definition pair_text :: "jval \<Rightarrow> jval \<Rightarrow> error + string" where
  "pair_text b q =
     (case b of
        JStr bs \<Rightarrow> (case q of JStr qs \<Rightarrow> Inr (bs @ qs) | _ \<Rightarrow> Inl AttributeError)
      | _ \<Rightarrow> Inl AttributeError)"

definition example_log10 :: "decimal \<Rightarrow> error + decimal" where
  "example_log10 d =
     (case map_of [(10, 1), (1, 0), (1 / 10, - 1), (1 / 100, - 2), (1 / 1000, - 3),
        (1 / 10000, - 4), (1 / 100000, - 5)] d of
        None \<Rightarrow> Inl InvalidOperation
      | Some l \<Rightarrow> Inr l)"

definition example_env :: env where
  "example_env =
     \<lparr>get_exchange_info =
        (\<lambda>n a. if a = JNull then Inr example_catalog
               else if a = JStr ''BTCUSDT'' then Inr example_spot_info
               else Inl (ClientError ''Invalid symbol'')),
      pair_to_order_book_symbol = (\<lambda>p. pair_text (base_symbol p) (quote_symbol p)),
      futures_pair_to_order_book_symbol =
        (\<lambda>p. case symbol p of JStr sy \<Rightarrow> Inr sy | _ \<Rightarrow> Inl AttributeError),
      klines_get_channel =
        (\<lambda>p i. ebind (pair_text (base_symbol p) (quote_symbol p)) (\<lambda>t. Inr (t @ ''@kline_'' @ i))),
      order_book_get_channel =
        (\<lambda>p d. ebind (pair_text (base_symbol p) (quote_symbol p)) (\<lambda>t. Inr (t @ ''@depth''))),
      trades_get_channel =
        (\<lambda>p. ebind (pair_text (base_symbol p) (quote_symbol p)) (\<lambda>t. Inr (t @ ''@trade''))),
      log10 = example_log10\<rparr>"

definition btc_usdt :: Pair where
  "btc_usdt = \<lparr>base_symbol = JStr ''BTC'', quote_symbol = JStr ''USDT''\<rparr>"

fun source_of :: "'h subscription \<Rightarrow> event_source" where
  "source_of (Bars pair bar_duration h) = KlinesSource pair"
| "source_of (OrderBook pair h depth) = OrderBookSource pair"
| "source_of (Trades pair h) = TradesSource pair"

definition consistent :: "('h, 'k, 'v) exchange \<Rightarrow> bool" where
  "consistent s =
     (case websocket s of
        None \<Rightarrow> ws_clients_created s = 0 \<and> event_sources s = [] \<and> dispatcher s = []
      | Some ws \<Rightarrow>
          ws_clients_created s = 1 \<and> distinct (map fst (event_sources s))
          \<and> (\<forall>k r. (map_of (channels ws) k = Some r)
                = (r < length (event_sources s) \<and> fst (event_sources s ! r) = k)))"

definition example_calls :: "nat subscription list" where
  "example_calls =
     [Trades btc_usdt 1, Bars btc_usdt (JInt 60) 2, Trades btc_usdt 3,
      Bars btc_usdt (JStr ''1m'') 4, Bars btc_usdt (JStr ''2m'') 5]"

definition eth_usdt :: Pair where
  "eth_usdt = \<lparr>base_symbol = JStr ''ETH'', quote_symbol = JStr ''USDT''\<rparr>"

definition abc_perpetual :: FuturesPair where
  "abc_perpetual =
     \<lparr>base_symbol = JStr ''ABC'', quote_symbol = JStr ''USDT'', symbol = JStr ''ABCUSDT'',
      contract_type = PERPETUAL, delivery_date = JInt 4133404800000\<rparr>"

definition btc_info :: PairInfoEx where
  "btc_info = \<lparr>base_precision = 5, quote_precision = 2, permissions = JArr [JStr ''SPOT'']\<rparr>"

definition abc_info :: FuturesPairInfoEx where
  "abc_info =
     \<lparr>fut_base_precision = 3, fut_quote_precision = 2, fut_contract_type = PERPETUAL,
      fut_delivery_date = JInt 4133404800000, fut_permissions = JNull\<rparr>"

definition spot_after :: "unit SpotExchange" where
  "spot_after =
     new_exchange\<lparr>requests := [JStr ''BTCUSDT''], pair_info_cache := [btc_usdt \<mapsto> btc_info]\<rparr>"

definition futures_after :: "unit FuturesExchange" where
  "futures_after =
     new_exchange\<lparr>requests := [JNull], pair_info_cache := [abc_perpetual \<mapsto> abc_info]\<rparr>"

definition large_order :: jval where
  "large_order =
     JObj [(''origQty'', JStr ''100000000000000000000000000000''), (''executedQty'', JStr ''1'')]"

definition large_trades :: "Trade list" where
  "large_trades =
     [JObj [(''commission'', JStr ''10000000000000000000000000000''),
            (''commissionAsset'', JStr ''BNB'')],
      JObj [(''commission'', JStr ''1''), (''commissionAsset'', JStr ''BNB'')]]"

section \<open>Properties of the decimal context\<close>

lemma pow10_pos: "0 < (10::rat) powi k"
  by (simp add: zero_less_power_int)

lemma pow10_Suc: "(10::rat) powi (k + 1) = 10 powi k * 10"
  by (simp add: power_int_add_1)

lemma pow10_mono: "a \<le> b \<Longrightarrow> (10::rat) powi a \<le> 10 powi b"
  by (rule power_int_increasing) simp_all

lemma adj_up_spec:
  "1 \<le> x \<Longrightarrow> 0 \<le> adj_up x \<and> 10 powi (adj_up x) \<le> x \<and> x < 10 powi (adj_up x + 1)"
proof (induction x rule: adj_up.induct)
  case (1 x)
  show ?case
  proof (cases "10 \<le> x")
    case True
    then have "1 \<le> x / 10" by simp
    with 1 True have ih: "0 \<le> adj_up (x / 10)" "10 powi (adj_up (x / 10)) \<le> x / 10"
      "x / 10 < 10 powi (adj_up (x / 10) + 1)" by auto
    have e: "adj_up x = adj_up (x / 10) + 1" using True by (subst adj_up.simps) simp
    define a where "a = adj_up (x / 10)"
    have p1: "(10::rat) powi (a + 1) = 10 powi a * 10" by (rule pow10_Suc)
    have p2: "(10::rat) powi (a + 1 + 1) = 10 powi (a + 1) * 10" by (rule pow10_Suc)
    have "0 \<le> a + 1" using ih(1) by (simp add: a_def)
    moreover have "10 powi (a + 1) \<le> x" using ih(2) p1 by (simp add: a_def)
    moreover have "x < 10 powi (a + 1 + 1)" using ih(3) p1 p2 by (simp add: a_def)
    ultimately show ?thesis unfolding e a_def by blast
  next
    case False
    then have e: "adj_up x = 0" by (subst adj_up.simps) simp
    show ?thesis unfolding e using False 1(2) by simp
  qed
qed

lemma adj_down_spec:
  "0 < x \<Longrightarrow> x < 1 \<Longrightarrow> 10 powi (adj_down x) \<le> x \<and> x < 10 powi (adj_down x + 1)"
proof (induction x rule: adj_down.induct)
  case (1 x)
  have e: "adj_down x = adj_down (x * 10) - 1" using 1(2,3) by (subst adj_down.simps) simp
  show ?case
  proof (cases "x * 10 < 1")
    case True
    with 1 have ih: "10 powi (adj_down (x * 10)) \<le> x * 10"
      "x * 10 < 10 powi (adj_down (x * 10) + 1)" by auto
    have p: "(10::rat) powi (adj_down (x * 10)) = 10 powi (adj_down (x * 10) - 1) * 10"
      using pow10_Suc[of "adj_down (x * 10) - 1"] by simp
    show ?thesis unfolding e using ih by (simp add: pow10_Suc p)
  next
    case False
    then have z: "adj_down (x * 10) = 0" by (subst adj_down.simps) simp
    show ?thesis unfolding e z using False 1(3) by (simp add: power_int_minus)
  qed
qed

lemma adjusted_spec:
  assumes "x \<noteq> 0"
  shows "10 powi (adjusted x) \<le> \<bar>x\<bar> \<and> \<bar>x\<bar> < 10 powi (adjusted x + 1)"
proof (cases "1 \<le> \<bar>x\<bar>")
  case True
  then show ?thesis using adj_up_spec[of "\<bar>x\<bar>"] by (simp add: adjusted_def)
next
  case False
  then show ?thesis using adj_down_spec[of "\<bar>x\<bar>"] assms by (simp add: adjusted_def)
qed

lemma adjusted_unique:
  assumes "10 powi e \<le> \<bar>x\<bar>" "\<bar>x\<bar> < 10 powi (e + 1)"
  shows "adjusted x = e"
proof -
  have "0 < \<bar>x\<bar>" using assms(1) pow10_pos[of e] by linarith
  then have nz: "x \<noteq> 0" by simp
  note s = adjusted_spec[OF nz]
  have "\<not> adjusted x < e"
  proof
    assume "adjusted x < e"
    then have "(10::rat) powi (adjusted x + 1) \<le> 10 powi e" by (intro pow10_mono) simp
    with s assms show False by linarith
  qed
  moreover have "\<not> e < adjusted x"
  proof
    assume "e < adjusted x"
    then have "(10::rat) powi (e + 1) \<le> 10 powi (adjusted x)" by (intro pow10_mono) simp
    with s assms show False by linarith
  qed
  ultimately show ?thesis by simp
qed

lemma rhe_int: "round_half_even (of_int n) = n"
  by (simp add: round_half_even_def)

lemma rhe_le: "y \<le> of_int m \<Longrightarrow> round_half_even y \<le> m"
proof -
  assume h: "y \<le> of_int m"
  show ?thesis
  proof (cases "y = of_int m")
    case True then show ?thesis by (simp add: rhe_int)
  next
    case False
    with h have "y < of_int m" by simp
    then have "\<lfloor>y\<rfloor> < m" by (simp add: floor_less_iff)
    then show ?thesis by (simp add: round_half_even_def Let_def)
  qed
qed

lemma rhe_ge: "of_int m \<le> y \<Longrightarrow> m \<le> round_half_even y"
proof -
  assume "of_int m \<le> y"
  then have "m \<le> \<lfloor>y\<rfloor>" by (simp add: le_floor_iff)
  then show ?thesis by (simp add: round_half_even_def Let_def)
qed

lemma pow10_diff: "(10::rat) powi a / 10 powi b = 10 powi (a - b)"
  using power_int_diff[of "10::rat" a b] by simp
lemma pow10_div_less: "\<bar>x::rat\<bar> < 10 powi (e + 1) \<Longrightarrow> \<bar>x\<bar> / 10 powi q < 10 powi (e + 1) / 10 powi q"
  by (rule divide_strict_right_mono) (auto intro: pow10_pos)
lemma abs_div_pow10: "\<bar>(x::rat) / 10 powi q\<bar> = \<bar>x\<bar> / 10 powi q"
  using abs_div_pos[OF pow10_pos[of q], of x] by (rule sym)
lemma pow10_le_prec: "e - 27 \<le> q \<Longrightarrow> (10::rat) powi (e + 1 - q) \<le> 10 ^ 28"
  using pow10_mono[of "e + 1 - q" 28] by simp
lemma scaled_bound:
  assumes "\<bar>x::rat\<bar> < 10 powi (e + 1)" "e - 27 \<le> q"
  shows "\<bar>x / 10 powi q\<bar> < 10 ^ 28"
  using pow10_div_less[OF assms(1), of q] pow10_le_prec[OF assms(2)] unfolding abs_div_pow10 pow10_diff by (rule less_le_trans)

lemma adjusted_scaled:
  assumes "n \<noteq> 0"
  shows "adjusted (of_int n * 10 powi q) = adjusted (of_int n) + q"
proof (rule adjusted_unique)
  have nz: "(of_int n :: rat) \<noteq> 0" using assms by simp
  note s = adjusted_spec[OF nz]
  have a: "\<bar>of_int n * 10 powi q :: rat\<bar> = \<bar>of_int n :: rat\<bar> * 10 powi q"
    using pow10_pos[of q] by (simp add: abs_mult)
  show "10 powi (adjusted (of_int n) + q) \<le> \<bar>of_int n * 10 powi q :: rat\<bar>"
    unfolding a using s pow10_pos[of q] by (simp add: power_int_add)
  have "\<bar>of_int n :: rat\<bar> * 10 powi q < 10 powi (adjusted (of_int n) + 1) * 10 powi q"
    using s pow10_pos[of q] by (simp add: mult_strict_right_mono)
  also have "\<dots> = 10 powi (adjusted (of_int n) + q + 1)" by (simp add: power_int_add)
  finally show "\<bar>of_int n * 10 powi q :: rat\<bar> < 10 powi (adjusted (of_int n) + q + 1)"
    unfolding a .
qed

lemma adjusted_int_le:
  assumes "n \<noteq> 0" "\<bar>n\<bar> < 10 ^ k"
  shows "adjusted (of_int n) < int k"
proof (rule ccontr)
  assume "\<not> adjusted (of_int n) < int k"
  then have "(10::rat) powi (int k) \<le> 10 powi (adjusted (of_int n))" by (intro pow10_mono) simp
  moreover have "10 powi (adjusted (of_int n)) \<le> \<bar>of_int n :: rat\<bar>"
    using adjusted_spec[of "of_int n"] assms(1) by simp
  moreover have "\<bar>of_int n :: rat\<bar> < 10 ^ k"
    using assms(2) by (metis of_int_abs of_int_less_iff of_int_numeral of_int_power)
  ultimately show False by simp
qed

lemma fix_representable:
  assumes "representable x"
  shows "dec_fix x = Inr x"
proof (cases "x = 0")
  case True
  then show ?thesis by (simp add: dec_fix_def)
next
  case False
  define e where "e = adjusted x"
  define q where "q = max (e - 27) Etiny"
  define y where "y = x / 10 powi q"
  from assms False have le: "e \<le> Emax" and "of_int \<lfloor>y\<rfloor> = y"
    unfolding representable_def e_def q_def y_def Let_def by blast+
  then obtain m where m: "y = of_int m" by metis
  have r: "round_half_even y = m" unfolding m by (rule rhe_int)
  have "\<bar>y\<bar> < 10 ^ 28" unfolding y_def
    using adjusted_spec[OF False] by (intro scaled_bound[of x e]) (simp_all add: e_def q_def)
  then have "\<bar>(of_int m :: rat)\<bar> < of_int (10 ^ 28)" unfolding m by simp
  then have "(of_int \<bar>m\<bar> :: rat) < of_int (10 ^ 28)" by (simp only: of_int_abs)
  then have b: "\<bar>m\<bar> < 10 ^ 28" by (simp only: of_int_less_iff)
  have "y * 10 powi q = x" using pow10_pos[of q] unfolding y_def by simp
  then have v: "of_int m * 10 powi q = x" unfolding m .
  have nov: "\<not> (10 ^ 28 \<le> \<bar>m\<bar> \<and> Emax < e + 1)" using b by linarith
  have "dec_fix x = (if 10 ^ 28 \<le> \<bar>m\<bar> \<and> Emax < e + 1 then Inl Overflow
      else Inr (of_int m * 10 powi q))"
    using False le unfolding dec_fix_def Let_def e_def[symmetric] q_def[symmetric]
      y_def[symmetric] r by simp
  then show ?thesis unfolding v using nov by (simp only: if_False)
qed

lemma scaled_int:
  assumes "q' \<le> q"
  shows "\<exists>m. of_int n * 10 powi q / 10 powi q' = (of_int m :: rat)"
proof -
  have "of_int n * 10 powi q / 10 powi q' = (of_int n :: rat) * (10 powi q / 10 powi q')" by simp
  also have "\<dots> = of_int n * 10 powi (q - q')" unfolding pow10_diff ..
  also have "\<dots> = of_int n * 10 ^ nat (q - q')"
    using assms by (simp add: power_int_nonneg_exp)
  also have "\<dots> = of_int (n * 10 ^ nat (q - q'))" by simp
  finally show ?thesis by blast
qed

lemma scaled_int10:
  assumes "10 dvd n"
  shows "\<exists>m. of_int n * 10 powi q / 10 powi (q + 1) = (of_int m :: rat)"
proof -
  from assms obtain m where m: "n = 10 * m" by (auto simp: dvd_def)
  have "of_int n * 10 powi q / 10 powi (q + 1) = (of_int n :: rat) * (10 powi q / 10 powi (q + 1))"
    by simp
  also have "\<dots> = of_int n * 10 powi (- 1)" unfolding pow10_diff by simp
  also have "\<dots> = of_int m" unfolding m by (simp add: power_int_minus)
  finally show ?thesis by blast
qed

lemma rhe_abs_le:
  assumes "\<bar>y\<bar> < of_int b"
  shows "\<bar>round_half_even y\<bar> \<le> b"
proof -
  have "y \<le> of_int b" using assms by linarith
  then have u: "round_half_even y \<le> b" by (rule rhe_le)
  have "of_int (- b) \<le> y" using assms by simp
  then have "- b \<le> round_half_even y" by (rule rhe_ge)
  with u show ?thesis by linarith
qed

lemma representableI:
  assumes "adjusted r \<le> Emax"
    and "\<exists>m. r / 10 powi (max (adjusted r - 27) Etiny) = of_int m"
  shows "representable r"
proof -
  from assms(2) obtain m where m: "r / 10 powi (max (adjusted r - 27) Etiny) = of_int m" ..
  have "of_int \<lfloor>(of_int m :: rat)\<rfloor> = (of_int m :: rat)" by simp
  then show ?thesis unfolding representable_def Let_def m using assms(1) by blast
qed

lemma fix_result_representable:
  assumes "dec_fix x = Inr r"
  shows "representable r"
proof (cases "x = 0")
  case True
  with assms have "r = 0" by (simp add: dec_fix_def)
  then show ?thesis by (simp add: representable_def)
next
  case False
  define e where "e = adjusted x"
  define q where "q = max (e - 27) Etiny"
  define n where "n = round_half_even (x / 10 powi q)"
  have unf: "dec_fix x = (if Emax < e then Inl Overflow
      else if 10 ^ 28 \<le> \<bar>n\<bar> \<and> Emax < e + 1 then Inl Overflow
      else Inr (of_int n * 10 powi q))"
    using False unfolding dec_fix_def Let_def e_def q_def n_def by simp
  have le: "e \<le> Emax" using assms unfolding unf by (simp split: if_splits)
  have nov: "\<not> (10 ^ 28 \<le> \<bar>n\<bar> \<and> Emax < e + 1)"
    using assms unfolding unf by (simp split: if_splits)
  have r: "r = of_int n * 10 powi q" using assms unfolding unf by (simp split: if_splits)
  have qE: "Etiny \<le> q" and qe: "q = e - 27 \<or> q = Etiny" unfolding q_def by auto
  have "\<bar>x / 10 powi q\<bar> < 10 ^ 28"
    using adjusted_spec[OF False] by (intro scaled_bound[of x e]) (simp_all add: e_def q_def)
  then have "\<bar>x / 10 powi q\<bar> < of_int (10 ^ 28)" by simp
  then have nb: "\<bar>n\<bar> \<le> 10 ^ 28" unfolding n_def by (rule rhe_abs_le)
  show ?thesis
  proof (cases "n = 0")
    case True
    then show ?thesis unfolding r by (simp add: representable_def)
  next
    case nz: False
    define k where "k = adjusted (of_int n)"
    have ar: "adjusted r = k + q" unfolding r k_def by (rule adjusted_scaled[OF nz])
    show ?thesis
    proof (cases "\<bar>n\<bar> < 10 ^ 28")
      case True
      have "k < int 28" unfolding k_def using nz True by (rule adjusted_int_le)
      then have k27: "k \<le> 27" by simp
      have q': "max (adjusted r - 27) Etiny \<le> q" unfolding ar using k27 qE by simp
      have "adjusted r \<le> Emax" unfolding ar using k27 qe le by (auto simp: Emax_def Etiny_def)
      moreover have "\<exists>m. r / 10 powi (max (adjusted r - 27) Etiny) = of_int m"
        using q' unfolding r by (rule scaled_int)
      ultimately show ?thesis by (rule representableI)
    next
      case False
      with nb have eq: "\<bar>n\<bar> = 10 ^ 28" by simp
      have "(10::int) dvd 10 ^ 28" by simp
      then have "10 dvd \<bar>n\<bar>" unfolding eq .
      then have dv: "10 dvd n" by simp
      have "\<bar>n\<bar> < 10 ^ 29" unfolding eq by simp
      with nz have "k < int 29" unfolding k_def by (rule adjusted_int_le)
      then have k28: "k \<le> 28" by simp
      have e1: "e + 1 \<le> Emax" using nov eq by simp
      have aE: "adjusted r \<le> Emax" unfolding ar using k28 qe e1 by (auto simp: Emax_def Etiny_def)
      have q': "max (adjusted r - 27) Etiny \<le> q + 1" unfolding ar using k28 qE by simp
      have "\<exists>m. r / 10 powi (max (adjusted r - 27) Etiny) = of_int m"
      proof (cases "max (adjusted r - 27) Etiny \<le> q")
        case True
        then show ?thesis unfolding r by (rule scaled_int)
      next
        case False
        with q' have "max (adjusted r - 27) Etiny = q + 1" by linarith
        then show ?thesis unfolding r using scaled_int10[OF dv, of q] by simp
      qed
      with aE show ?thesis by (rule representableI)
    qed
  qed
qed

lemma fix_idem: "dec_fix x = Inr r \<Longrightarrow> dec_fix r = Inr r"
  by (rule fix_representable) (rule fix_result_representable)

section \<open>Evaluation rules\<close>

lemma ebind_Inr [simp]: "ebind (Inr v) f = f v"
  by (simp add: ebind_def)

lemma ebind_Inl [simp]: "ebind (Inl e) f = Inl e"
  by (simp add: ebind_def)

lemma OrderInfo_init_json: "OrderInfo_init j ts = Inr order \<Longrightarrow> json order = j"
  by (auto simp: OrderInfo_init_def ebind_def split: sum.splits)

lemmas dec_eval = dec_fix_def adjusted_def adj_up.simps adj_down.simps round_half_even_def
  Emax_def Etiny_def Let_def

section \<open>Orders\<close>

text \<open>
  Claim C8, amended.  For every constructed \<^verbatim>\<open>OrderInfo\<close>, \<^verbatim>\<open>amount_remaining\<close> is \<^verbatim>\<open>amount\<close>
  minus \<^verbatim>\<open>amount_filled\<close>, both decoded from the payload the order was constructed with, in
  the arithmetic of \<^verbatim>\<open>Decimal\<close> under the default context: the exact difference whenever that
  is a number the context represents (at most 28 significant digits, exponent in range), and
  the difference rounded to 28 significant digits otherwise.
\<close>

theorem amount_remaining_is_difference:
  assumes "OrderInfo_init j ts = Inr order"
    and "amount j = Inr a" and "amount_filled j = Inr f"
  shows "amount_remaining order = dec_sub a f
    \<and> (representable (a - f) \<longrightarrow> amount_remaining order = Inr (a - f))"
proof -
  have j: "json order = j" using assms(1) by (rule OrderInfo_init_json)
  have r: "amount_remaining order = dec_sub a f"
    unfolding amount_remaining_def j assms(2) assms(3) by simp
  show ?thesis unfolding r dec_sub_def using fix_representable[of "a - f"] by blast
qed

lemmas payload_eval = subscript_def get_def get_default_def py_Decimal_def parse_decimal_def
  strip_def split_sign_def is_space_def is_digit_def digits_val_def

theorem amount_remaining_is_difference_witness:
  "OrderInfo_init (JObj [(''origQty'', JStr ''10.5''), (''executedQty'', JStr ''0.25'')]) []
     = Inr \<lparr>json = JObj [(''origQty'', JStr ''10.5''), (''executedQty'', JStr ''0.25'')],
            trades = [], fees = []\<rparr>
   \<and> amount (JObj [(''origQty'', JStr ''10.5''), (''executedQty'', JStr ''0.25'')]) = Inr (21 / 2)
   \<and> amount_filled (JObj [(''origQty'', JStr ''10.5''), (''executedQty'', JStr ''0.25'')])
     = Inr (1 / 4)
   \<and> representable (21 / 2 - 1 / 4)
   \<and> amount_remaining
       \<lparr>json = JObj [(''origQty'', JStr ''10.5''), (''executedQty'', JStr ''0.25'')],
        trades = [], fees = []\<rparr> = Inr (41 / 4)"
proof -
  let ?j = "JObj [(''origQty'', JStr ''10.5''), (''executedQty'', JStr ''0.25'')]"
  have i: "OrderInfo_init ?j [] = Inr \<lparr>json = ?j, trades = [], fees = []\<rparr>"
    by (simp add: OrderInfo_init_def)
  have a: "amount ?j = Inr (21 / 2)" by (simp add: amount_def payload_eval)
  have f: "amount_filled ?j = Inr (1 / 4)" by (simp add: amount_filled_def payload_eval)
  have r: "representable (21 / 2 - 1 / 4)" by (simp add: representable_def dec_eval)
  from amount_remaining_is_difference[OF i a f]
  have "representable (21 / 2 - 1 / 4) \<longrightarrow>
    amount_remaining \<lparr>json = ?j, trades = [], fees = []\<rparr> = Inr (21 / 2 - 1 / 4)"
    by (rule conjunct2)
  then have "amount_remaining \<lparr>json = ?j, trades = [], fees = []\<rparr> = Inr (21 / 2 - 1 / 4)"
    using r by (rule mp)
  then have c: "amount_remaining \<lparr>json = ?j, trades = [], fees = []\<rparr> = Inr (41 / 4)" by simp
  from i a f r c show ?thesis by blast
qed

lemma dec_div_9_2: "dec_div 9 2 = Inr (9 / 2)"
  by (simp add: dec_div_def dec_eval)

text \<open>
  Claim C4.  \<^verbatim>\<open>fill_price\<close> is \<^verbatim>\<open>None\<close> when \<^verbatim>\<open>amount_filled\<close> is zero, and no division is
  performed; otherwise it is \<^verbatim>\<open>quote_amount_filled\<close> divided by \<^verbatim>\<open>amount_filled\<close> (the
  division of \<^verbatim>\<open>Decimal\<close>, whose failure is the failure of the property).  With
  \<^verbatim>\<open>amount_filled\<close> 2 and \<^verbatim>\<open>quote_amount_filled\<close> 9 it is 4.5.
\<close>

theorem fill_price_cases:
  assumes "OrderInfo_init j ts = Inr order"
    and "amount_filled j = Inr f"
  shows "(f = 0 \<longrightarrow> fill_price order = Inr None)
    \<and> (f \<noteq> 0 \<longrightarrow> (\<forall>q. quote_amount_filled j = Inr q \<longrightarrow>
          fill_price order = ebind (dec_div q f) (\<lambda>r. Inr (Some r))))
    \<and> (f = 2 \<longrightarrow> quote_amount_filled j = Inr 9 \<longrightarrow> fill_price order = Inr (Some (9 / 2)))"
proof -
  have j: "json order = j" using assms(1) by (rule OrderInfo_init_json)
  have z: "f = 0 \<longrightarrow> fill_price order = Inr None"
    unfolding fill_price_def j assms(2) by simp
  have n: "f \<noteq> 0 \<longrightarrow> (\<forall>q. quote_amount_filled j = Inr q \<longrightarrow>
      fill_price order = ebind (dec_div q f) (\<lambda>r. Inr (Some r)))"
    unfolding fill_price_def j assms(2) by simp
  have e: "f = 2 \<longrightarrow> quote_amount_filled j = Inr 9 \<longrightarrow> fill_price order = Inr (Some (9 / 2))"
    using n dec_div_9_2 by auto
  from z n e show ?thesis by blast
qed

theorem fill_price_cases_witness:
  "OrderInfo_init (JObj [(''executedQty'', JStr ''2''), (''cummulativeQuoteQty'', JStr ''9'')]) []
     = Inr \<lparr>json = JObj [(''executedQty'', JStr ''2''), (''cummulativeQuoteQty'', JStr ''9'')],
            trades = [], fees = []\<rparr>
   \<and> amount_filled (JObj [(''executedQty'', JStr ''2''), (''cummulativeQuoteQty'', JStr ''9'')])
     = Inr 2
   \<and> quote_amount_filled
       (JObj [(''executedQty'', JStr ''2''), (''cummulativeQuoteQty'', JStr ''9'')]) = Inr 9
   \<and> fill_price
       \<lparr>json = JObj [(''executedQty'', JStr ''2''), (''cummulativeQuoteQty'', JStr ''9'')],
        trades = [], fees = []\<rparr> = Inr (Some (9 / 2))"
proof -
  let ?j = "JObj [(''executedQty'', JStr ''2''), (''cummulativeQuoteQty'', JStr ''9'')]"
  have i: "OrderInfo_init ?j [] = Inr \<lparr>json = ?j, trades = [], fees = []\<rparr>"
    by (simp add: OrderInfo_init_def)
  have f: "amount_filled ?j = Inr 2" by (simp add: amount_filled_def payload_eval)
  have q: "quote_amount_filled ?j = Inr 9" by (simp add: quote_amount_filled_def payload_eval)
  from fill_price_cases[OF i f] q
  have c: "fill_price \<lparr>json = ?j, trades = [], fees = []\<rparr> = Inr (Some (9 / 2))" by blast
  from i f q c show ?thesis by blast
qed

lemma fill_price_zero_example:
  "fill_price \<lparr>json = JObj [(''executedQty'', JStr ''0.000''), (''cummulativeQuoteQty'', JStr ''0'')],
      trades = [], fees = []\<rparr> = Inr None"
  by (simp add: fill_price_def amount_filled_def payload_eval)

lemma getitem_fst:
  "fst (defaultdict_getitem d k) = (case map_of d k of None \<Rightarrow> 0 | Some v \<Rightarrow> v)"
  by (simp add: defaultdict_getitem_def split: option.splits)

lemma getitem_snd_update:
  "(map_of (snd (defaultdict_getitem d k)))(k \<mapsto> v) = (map_of d)(k \<mapsto> v)"
  by (simp add: defaultdict_getitem_def update_conv' split: option.splits)

lemma add_fee_cases:
  assumes "add_fee d t = Inr d'"
  obtains (zero) "commission t = Inr 0" "d' = d"
  | (nonzero) c k v where "commission t = Inr c" "c \<noteq> 0"
      "ebind (commission_asset t) dict_key = Inr k"
      "dec_add (fst (defaultdict_getitem d k)) c = Inr v"
      "map_of d' = (map_of d)(k \<mapsto> v)"
proof -
  from assms obtain c where c: "commission t = Inr c"
    by (cases "commission t") (simp_all add: add_fee_def)
  show ?thesis
  proof (cases "c = 0")
    case True
    with assms c have "d' = d" by (simp add: add_fee_def)
    with c True show ?thesis by (intro zero) simp_all
  next
    case False
    from assms c False obtain a where a: "commission_asset t = Inr a"
      by (cases "commission_asset t") (simp_all add: add_fee_def)
    from assms c False a obtain k where k: "dict_key a = Inr k"
      by (cases "dict_key a") (simp_all add: add_fee_def)
    obtain old d1 where g: "defaultdict_getitem d k = (old, d1)" by fastforce
    from assms c False a k g obtain v where v: "dec_add old c = Inr v"
      by (cases "dec_add old c") (simp_all add: add_fee_def)
    from assms c False a k g v have d': "d' = AList.update k v d1"
      by (simp add: add_fee_def)
    have "map_of d' = (map_of (snd (defaultdict_getitem d k)))(k \<mapsto> v)"
      unfolding d' g by (simp add: update_conv')
    then have m: "map_of d' = (map_of d)(k \<mapsto> v)" by (simp only: getitem_snd_update)
    show ?thesis
      by (rule nonzero[OF c False _ _ m]) (simp_all add: a k g v)
  qed
qed

lemma representable_0: "representable 0"
  by (simp add: representable_def)

lemma getitem_representable:
  "all_representable d \<Longrightarrow> representable (fst (defaultdict_getitem d k))"
  by (auto simp: getitem_fst all_representable_def representable_0 split: option.splits)

lemma dec_add_zero:
  assumes "representable s"
  shows "dec_add s 0 = Inr s"
  using fix_representable[OF assms] by (simp add: dec_add_def)

lemma add_fee_step:
  assumes "add_fee d t = Inr d'" and "all_representable d"
  shows "all_representable d'"
    and "has_asset k t \<Longrightarrow> \<exists>c. commission t = Inr c
           \<and> dec_add (fst (defaultdict_getitem d k)) c = Inr (fst (defaultdict_getitem d' k))"
    and "\<not> has_asset k t \<Longrightarrow> fst (defaultdict_getitem d' k) = fst (defaultdict_getitem d k)"
    and "dom (map_of d') = dom (map_of d) \<union> {k. has_asset k t \<and> nonzero_commission t}"
proof -
  from assms(1) show "all_representable d'"
  proof (cases rule: add_fee_cases)
    case zero
    then show ?thesis using assms(2) by simp
  next
    case (nonzero c k' v)
    from nonzero(4) have "representable v"
      unfolding dec_add_def by (rule fix_result_representable)
    then show ?thesis using assms(2) unfolding all_representable_def nonzero(5) by auto
  qed
next
  assume h: "has_asset k t"
  from assms(1) show "\<exists>c. commission t = Inr c
      \<and> dec_add (fst (defaultdict_getitem d k)) c = Inr (fst (defaultdict_getitem d' k))"
  proof (cases rule: add_fee_cases)
    case zero
    then show ?thesis using dec_add_zero[OF getitem_representable[OF assms(2)], of k] by simp
  next
    case (nonzero c k' v)
    from h nonzero(3) have "k' = k" by (simp add: has_asset_def)
    then show ?thesis using nonzero by (simp add: getitem_fst)
  qed
next
  assume h: "\<not> has_asset k t"
  from assms(1) show "fst (defaultdict_getitem d' k) = fst (defaultdict_getitem d k)"
  proof (cases rule: add_fee_cases)
    case zero
    then show ?thesis by simp
  next
    case (nonzero c k' v)
    from h nonzero(3) have "k' \<noteq> k" by (auto simp: has_asset_def)
    then show ?thesis using nonzero by (simp add: getitem_fst)
  qed
next
  from assms(1) show "dom (map_of d') = dom (map_of d) \<union> {k. has_asset k t \<and> nonzero_commission t}"
  proof (cases rule: add_fee_cases)
    case zero
    then show ?thesis by (simp add: nonzero_commission_def)
  next
    case (nonzero c k' v)
    have "{k. has_asset k t \<and> nonzero_commission t} = {k'}"
      using nonzero(1,2,3) by (auto simp: has_asset_def nonzero_commission_def)
    then show ?thesis unfolding nonzero(5) by auto
  qed
qed

lemma accumulate_fees_sum:
  assumes "accumulate_fees d ts = Inr d'" and "all_representable d"
  shows "sum_commissions (fst (defaultdict_getitem d k)) (filter (has_asset k) ts)
           = Inr (fst (defaultdict_getitem d' k))"
  using assms
proof (induction ts arbitrary: d)
  case Nil
  then show ?case by simp
next
  case (Cons t ts)
  from Cons.prems(1) obtain d1 where s: "add_fee d t = Inr d1" and r: "accumulate_fees d1 ts = Inr d'"
    by (cases "add_fee d t") simp_all
  note st = add_fee_step[OF s Cons.prems(2)]
  note ih = Cons.IH[OF r st(1)]
  show ?case
  proof (cases "has_asset k t")
    case True
    from st(2)[OF True] obtain c where c: "commission t = Inr c"
      "dec_add (fst (defaultdict_getitem d k)) c = Inr (fst (defaultdict_getitem d1 k))" by blast
    show ?thesis using True c ih by simp
  next
    case False
    show ?thesis using False st(3)[OF False] ih by simp
  qed
qed

lemma accumulate_fees_dom:
  assumes "accumulate_fees d ts = Inr d'" and "all_representable d"
  shows "dom (map_of d') = dom (map_of d) \<union> {k. \<exists>t\<in>set ts. has_asset k t \<and> nonzero_commission t}"
  using assms
proof (induction ts arbitrary: d)
  case Nil
  then show ?case by simp
next
  case (Cons t ts)
  from Cons.prems(1) obtain d1 where s: "add_fee d t = Inr d1" and r: "accumulate_fees d1 ts = Inr d'"
    by (cases "add_fee d t") simp_all
  note st = add_fee_step[OF s Cons.prems(2)]
  from Cons.IH[OF r st(1)] st(4) show ?case by auto
qed

lemma OrderInfo_init_fees:
  "OrderInfo_init j ts = Inr order \<Longrightarrow> accumulate_fees [] ts = Inr (fees order)"
  by (cases "accumulate_fees [] ts") (auto simp: OrderInfo_init_def)

lemma all_representable_Nil: "all_representable []"
  by (simp add: all_representable_def)

lemma sum_commissions_exact:
  "map commission ts = map Inr cs \<Longrightarrow> sums_exact s cs
     \<Longrightarrow> sum_commissions s ts = Inr (s + sum_list cs)"
proof (induction ts arbitrary: s cs)
  case Nil
  then show ?case by simp
next
  case (Cons t ts)
  from Cons.prems(1) obtain c cs' where cs: "cs = c # cs'" "commission t = Inr c"
    "map commission ts = map Inr cs'" by (cases cs) auto
  from Cons.prems(2) cs(1) have r: "representable (s + c)" "sums_exact (s + c) cs'" by simp_all
  have a: "dec_add s c = Inr (s + c)" unfolding dec_add_def using r(1) by (rule fix_representable)
  show ?case using Cons.IH[OF cs(3) r(2)] cs a by (simp add: add.assoc)
qed

text \<open>
  Claim C3, amended.  For an \<^verbatim>\<open>OrderInfo\<close> constructed from the trade list \<open>ts\<close> and every
  key \<open>k\<close> that a commission asset can be filed under, \<^verbatim>\<open>fees[k]\<close> is the sum, taken from
  left to right in the arithmetic of \<^verbatim>\<open>Decimal\<close> under the default context, of the commissions
  of all trades of \<open>ts\<close> whose commission asset is \<open>k\<close>, those with a zero commission
  included: their exact sum whenever every partial sum is a number the context represents
  (at most 28 significant digits, exponent in range), each addition rounded to 28
  significant digits otherwise.
\<close>

theorem fees_are_sums:
  assumes "OrderInfo_init j ts = Inr order"
  shows "sum_commissions 0 (filter (has_asset k) ts)
           = Inr (fst (defaultdict_getitem (fees order) k))
    \<and> (\<forall>cs. map commission (filter (has_asset k) ts) = map Inr cs \<longrightarrow> sums_exact 0 cs
          \<longrightarrow> fst (defaultdict_getitem (fees order) k) = sum_list cs)"
proof -
  have a: "accumulate_fees [] ts = Inr (fees order)" using assms by (rule OrderInfo_init_fees)
  have "sum_commissions (fst (defaultdict_getitem [] k)) (filter (has_asset k) ts)
      = Inr (fst (defaultdict_getitem (fees order) k))"
    using a all_representable_Nil by (rule accumulate_fees_sum)
  then have s: "sum_commissions 0 (filter (has_asset k) ts)
      = Inr (fst (defaultdict_getitem (fees order) k))"
    by (simp add: defaultdict_getitem_def)
  show ?thesis using s sum_commissions_exact[of "filter (has_asset k) ts" _ 0] by auto
qed

text \<open>
  Claim C9.  The keys of the fees mapping of a constructed \<^verbatim>\<open>OrderInfo\<close> are the keys of
  the commission assets of the trades with a nonzero commission; so an asset all of whose
  trades carry a zero commission is not a key.
\<close>

theorem fees_keys:
  assumes "OrderInfo_init j ts = Inr order"
  shows "(k \<in> fst ` set (fees order)) = (\<exists>t\<in>set ts. has_asset k t \<and> nonzero_commission t)"
proof -
  have a: "accumulate_fees [] ts = Inr (fees order)" using assms by (rule OrderInfo_init_fees)
  from accumulate_fees_dom[OF a all_representable_Nil]
  show ?thesis by (auto simp: dom_map_of_conv_image_fst)
qed

lemmas fee_eval = commission_def commission_asset_def dict_key_def defaultdict_getitem_def
  add_fee_def dec_add_def has_asset_def nonzero_commission_def

lemma example_init:
  "OrderInfo_init (JObj []) example_trades
     = Inr \<lparr>json = JObj [], trades = example_trades, fees = [(JStr ''BNB'', 3 / 10)]\<rparr>"
  by (simp add: OrderInfo_init_def example_trades_def fee_eval payload_eval dec_eval)

lemma example_commissions:
  "map commission (filter (has_asset (JStr ''BNB'')) example_trades) = map Inr [1 / 10, 0, 1 / 5]"
  by (simp add: example_trades_def fee_eval payload_eval)

lemma example_exact: "sums_exact 0 [1 / 10, 0, 1 / 5]"
  by (simp add: representable_def dec_eval)

theorem fees_are_sums_witness:
  "OrderInfo_init (JObj []) example_trades
     = Inr \<lparr>json = JObj [], trades = example_trades, fees = [(JStr ''BNB'', 3 / 10)]\<rparr>
   \<and> map commission (filter (has_asset (JStr ''BNB'')) example_trades)
     = map Inr [1 / 10, 0, 1 / 5]
   \<and> sums_exact 0 [1 / 10, 0, 1 / 5]
   \<and> sum_commissions 0 (filter (has_asset (JStr ''BNB'')) example_trades) = Inr (3 / 10)
   \<and> fst (defaultdict_getitem [(JStr ''BNB'', 3 / 10)] (JStr ''BNB''))
     = sum_list [1 / 10, 0, 1 / 5]"
  using fees_are_sums[OF example_init, of "JStr ''BNB''"] example_init example_commissions
    example_exact
  by (simp add: defaultdict_getitem_def)

theorem fees_keys_witness:
  "OrderInfo_init (JObj []) example_trades
     = Inr \<lparr>json = JObj [], trades = example_trades, fees = [(JStr ''BNB'', 3 / 10)]\<rparr>
   \<and> (\<exists>t\<in>set example_trades. has_asset (JStr ''BNB'') t \<and> nonzero_commission t)
   \<and> \<not> (\<exists>t\<in>set example_trades. has_asset (JStr ''ETH'') t \<and> nonzero_commission t)"
  using fees_keys[OF example_init, of "JStr ''BNB''"] fees_keys[OF example_init, of "JStr ''ETH''"]
    example_init
  by simp

lemma order_ids_no_match:
  "\<forall>x\<in>set reports. \<not> has_type types x \<Longrightarrow> order_ids types reports = Inr ids \<Longrightarrow> ids = []"
proof (induction reports arbitrary: ids)
  case Nil
  then show ?case by simp
next
  case (Cons x reports)
  from Cons.prems(1) have n: "\<not> has_type types x" and r: "\<forall>x\<in>set reports. \<not> has_type types x"
    by simp_all
  from Cons.prems(2) obtain t where t: "subscript x ''type'' = Inr t"
    by (cases "subscript x ''type''") simp_all
  from n t have "t \<notin> set (map JStr types)" by (simp add: has_type_def)
  with Cons.prems(2) t have "order_ids types reports = Inr ids" by simp
  with r show ?case by (rule Cons.IH)
qed

lemma order_ids_typed_no_match:
  "\<forall>x\<in>set reports. \<exists>t. subscript x ''type'' = Inr t \<Longrightarrow> filter (has_type types) reports = []
     \<Longrightarrow> order_ids types reports = Inr []"
proof (induction reports)
  case Nil
  then show ?case by simp
next
  case (Cons x reports)
  from Cons.prems(1) obtain t where t: "subscript x ''type'' = Inr t" by auto
  from Cons.prems(2) have n: "\<not> has_type types x" and f: "filter (has_type types) reports = []"
    by (simp_all split: if_splits)
  from n t have "t \<notin> set (map JStr types)" by (simp add: has_type_def)
  then show ?case using t Cons.IH[OF _ f] Cons.prems(1) by simp
qed

lemma order_ids_single:
  "\<forall>x\<in>set reports. \<exists>t. subscript x ''type'' = Inr t \<Longrightarrow> filter (has_type types) reports = [leg]
     \<Longrightarrow> subscript leg ''orderId'' = Inr i \<Longrightarrow> order_ids types reports = Inr [py_str i]"
proof (induction reports)
  case Nil
  then show ?case by simp
next
  case (Cons x reports)
  from Cons.prems(1) obtain t where t: "subscript x ''type'' = Inr t" by auto
  from Cons.prems(1) have ty: "\<forall>x\<in>set reports. \<exists>t. subscript x ''type'' = Inr t" by simp
  show ?case
  proof (cases "has_type types x")
    case True
    with Cons.prems(2) have x: "x = leg" and f: "filter (has_type types) reports = []" by simp_all
    from True t have m: "t \<in> set (map JStr types)" by (simp add: has_type_def)
    have "order_ids types reports = Inr []" using ty f by (rule order_ids_typed_no_match)
    then show ?thesis using t m Cons.prems(3) x by simp
  next
    case False
    with Cons.prems(2) have f: "filter (has_type types) reports = [leg]" by simp
    from False t have "t \<notin> set (map JStr types)" by (simp add: has_type_def)
    then show ?thesis using t Cons.IH[OF ty f Cons.prems(3)] by simp
  qed
qed

lemma first_id_single:
  assumes "order_reports payload = Inr reports"
    and "\<forall>x\<in>set reports. \<exists>t. subscript x ''type'' = Inr t"
    and "filter (has_type types) reports = [leg]"
    and "subscript leg ''orderId'' = Inr i"
  shows "first_id types payload = Inr (py_str i)"
  using order_ids_single[OF assms(2,3,4)] assms(1) by (simp add: first_id_def)

lemma first_id_no_match:
  assumes "\<forall>reports. order_reports payload = Inr reports \<longrightarrow> (\<forall>x\<in>set reports. \<not> has_type types x)"
  shows "\<exists>e. first_id types payload = Inl e"
proof (cases "order_reports payload")
  case (Inl e)
  then show ?thesis by (simp add: first_id_def)
next
  case (Inr reports)
  with assms have n: "\<forall>x\<in>set reports. \<not> has_type types x" by simp
  show ?thesis
  proof (cases "order_ids types reports")
    case (Inl e)
    then show ?thesis using Inr by (simp add: first_id_def)
  next
    case r: (Inr ids)
    from n r have "ids = []" by (rule order_ids_no_match)
    then show ?thesis using Inr r by (simp add: first_id_def)
  qed
qed

text \<open>
  Claim C7.  When the leg reports of an OCO group all carry a type, exactly one of them is
  of limit type and one of stop type, \<^verbatim>\<open>limit_order_id\<close> and \<^verbatim>\<open>stop_loss_order_id\<close> are the
  texts of the order ids of these legs.  When no leg report has the requested type, the
  lookup fails.
\<close>

theorem oco_leg_lookup:
  "(order_reports payload = Inr reports \<longrightarrow> (\<forall>x\<in>set reports. \<exists>t. subscript x ''type'' = Inr t)
      \<longrightarrow> filter (has_type [''LIMIT'', ''LIMIT_MAKER'']) reports = [limit_leg]
      \<longrightarrow> subscript limit_leg ''orderId'' = Inr li
      \<longrightarrow> filter (has_type [''STOP_LOSS'', ''STOP_LOSS_LIMIT'']) reports = [stop_leg]
      \<longrightarrow> subscript stop_leg ''orderId'' = Inr si
      \<longrightarrow> limit_order_id payload = Inr (py_str li)
          \<and> stop_loss_order_id payload = Inr (py_str si))
   \<and> ((\<forall>reports. order_reports payload = Inr reports
          \<longrightarrow> (\<forall>x\<in>set reports. \<not> has_type [''LIMIT'', ''LIMIT_MAKER''] x))
        \<longrightarrow> (\<exists>e. limit_order_id payload = Inl e))
   \<and> ((\<forall>reports. order_reports payload = Inr reports
          \<longrightarrow> (\<forall>x\<in>set reports. \<not> has_type [''STOP_LOSS'', ''STOP_LOSS_LIMIT''] x))
        \<longrightarrow> (\<exists>e. stop_loss_order_id payload = Inl e))"
  unfolding limit_order_id_def stop_loss_order_id_def
  using first_id_single[of payload reports] first_id_no_match[of payload]
  by blast

lemmas oco_eval = order_reports_def py_iter_def has_type_def py_str_def str_of_nat.simps
  digit_char_def

theorem oco_leg_lookup_witness:
  "order_reports example_oco
     = Inr [JObj [(''orderId'', JInt 4), (''type'', JStr ''STOP_LOSS'')],
            JObj [(''orderId'', JInt 5), (''type'', JStr ''LIMIT_MAKER'')]]
   \<and> limit_order_id example_oco = Inr (Modelled ''5'')
   \<and> stop_loss_order_id example_oco = Inr (Modelled ''4'')
   \<and> order_reports example_oco_stop_only
     = Inr [JObj [(''orderId'', JInt 4), (''type'', JStr ''STOP_LOSS'')]]
   \<and> (\<exists>e. limit_order_id example_oco_stop_only = Inl e)"
proof -
  let ?s = "JObj [(''orderId'', JInt 4), (''type'', JStr ''STOP_LOSS'')]"
  let ?l = "JObj [(''orderId'', JInt 5), (''type'', JStr ''LIMIT_MAKER'')]"
  have r: "order_reports example_oco = Inr [?s, ?l]"
    by (simp add: example_oco_def oco_eval payload_eval)
  have ty: "\<forall>x\<in>set [?s, ?l]. \<exists>t. subscript x ''type'' = Inr t" by (simp add: payload_eval)
  have fl: "filter (has_type [''LIMIT'', ''LIMIT_MAKER'']) [?s, ?l] = [?l]"
    by (simp add: oco_eval payload_eval)
  have fs: "filter (has_type [''STOP_LOSS'', ''STOP_LOSS_LIMIT'']) [?s, ?l] = [?s]"
    by (simp add: oco_eval payload_eval)
  have il: "subscript ?l ''orderId'' = Inr (JInt 5)" by (simp add: payload_eval)
  have ist: "subscript ?s ''orderId'' = Inr (JInt 4)" by (simp add: payload_eval)
  from oco_leg_lookup[of example_oco "[?s, ?l]" ?l "JInt 5" ?s "JInt 4"] r ty fl fs il ist
  have "limit_order_id example_oco = Inr (py_str (JInt 5))
      \<and> stop_loss_order_id example_oco = Inr (py_str (JInt 4))" by blast
  then have c: "limit_order_id example_oco = Inr (Modelled ''5'')"
    "stop_loss_order_id example_oco = Inr (Modelled ''4'')" by (simp_all add: oco_eval)
  have r2: "order_reports example_oco_stop_only = Inr [?s]"
    by (simp add: example_oco_stop_only_def oco_eval payload_eval)
  have n: "\<forall>reports. order_reports example_oco_stop_only = Inr reports
      \<longrightarrow> (\<forall>x\<in>set reports. \<not> has_type [''LIMIT'', ''LIMIT_MAKER''] x)"
    unfolding r2 by (simp add: oco_eval payload_eval)
  from oco_leg_lookup[of example_oco_stop_only] n
  have f: "\<exists>e. limit_order_id example_oco_stop_only = Inl e" by blast
  from r c r2 f show ?thesis by blast
qed

text \<open>
  Claim C10.  Reading \<^verbatim>\<open>is_open\<close> of a \<^verbatim>\<open>CreatedOrder\<close> whose payload has no \<^verbatim>\<open>status\<close> field
  fails with the assertion error \<^verbatim>\<open>status not set\<close>; \<^verbatim>\<open>is_open\<close> returns a boolean only when
  the payload carries a status, and then it is what the status helper returns for it.
\<close>

theorem created_order_is_open_needs_status:
  "(map_of kvs ''status'' = None
      \<longrightarrow> CreatedOrder_is_open order_status_is_open (JObj kvs)
            = Inl (AssertionError ''status not set''))
   \<and> (CreatedOrder_is_open order_status_is_open payload = Inr b
      \<longrightarrow> (\<exists>fields st. payload = JObj fields \<and> map_of fields ''status'' = Some st \<and> st \<noteq> JNull
            \<and> order_status_is_open st = Inr b))"
proof -
  have a: "map_of kvs ''status'' = None
      \<longrightarrow> CreatedOrder_is_open order_status_is_open (JObj kvs)
            = Inl (AssertionError ''status not set'')"
    by (simp add: CreatedOrder_is_open_def CreatedOrder_status_def get_def get_default_def)
  have b: "CreatedOrder_is_open order_status_is_open payload = Inr b
      \<longrightarrow> (\<exists>fields st. payload = JObj fields \<and> map_of fields ''status'' = Some st \<and> st \<noteq> JNull
            \<and> order_status_is_open st = Inr b)"
    by (cases payload)
      (auto simp: CreatedOrder_is_open_def CreatedOrder_status_def get_def get_default_def
        split: option.splits if_splits)
  from a b show ?thesis by blast
qed

theorem created_order_is_open_needs_status_witness:
  "map_of [(''symbol'', JStr ''BTCUSDT''), (''orderId'', JInt 28), (''transactTime'', JInt 1507725176595)]
     ''status'' = None
   \<and> CreatedOrder_is_open order_status_is_open_spec
       (JObj [(''symbol'', JStr ''BTCUSDT''), (''orderId'', JInt 28),
              (''transactTime'', JInt 1507725176595)])
     = Inl (AssertionError ''status not set'')
   \<and> CreatedOrder_is_open order_status_is_open_spec
       (JObj [(''orderId'', JInt 28), (''status'', JStr ''PARTIALLY_FILLED'')]) = Inr True
   \<and> (\<exists>fields st. JObj [(''orderId'', JInt 28), (''status'', JStr ''PARTIALLY_FILLED'')] = JObj fields
         \<and> map_of fields ''status'' = Some st \<and> st \<noteq> JNull
         \<and> order_status_is_open_spec st = Inr True)"
proof -
  let ?ack = "[(''symbol'', JStr ''BTCUSDT''), (''orderId'', JInt 28),
    (''transactTime'', JInt 1507725176595)]"
  let ?full = "JObj [(''orderId'', JInt 28), (''status'', JStr ''PARTIALLY_FILLED'')]"
  have n: "map_of ?ack ''status'' = None" by simp
  have o: "CreatedOrder_is_open order_status_is_open_spec ?full = Inr True"
    by (simp add: CreatedOrder_is_open_def CreatedOrder_status_def get_def get_default_def
        order_status_is_open_spec_def)
  from created_order_is_open_needs_status[of ?ack order_status_is_open_spec ?full True] n o
  show ?thesis by blast
qed

lemma filter_err_Inr:
  "filter_err p xs = Inr ys \<Longrightarrow> ys = filter (\<lambda>x. p x = Inr True) xs"
proof (induction xs arbitrary: ys)
  case Nil
  then show ?case by simp
next
  case (Cons x xs)
  from Cons.prems obtain b where b: "p x = Inr b" by (cases "p x") simp_all
  from Cons.prems b obtain zs where zs: "filter_err p xs = Inr zs"
    by (cases "filter_err p xs") simp_all
  from Cons.IH[OF zs] Cons.prems b zs show ?case by auto
qed

lemma get_pair_matches_fields:
  assumes "subscript x ''pair'' = Inr p" and "subscript x ''contractType'' = Inr c"
    and "subscript x ''symbol'' = Inr sy"
  shows "get_pair_matches symb pair ct x
    = Inr ((\<forall>v. pair = Some v \<longrightarrow> p = JStr v) \<and> (\<forall>v. ct = Some v \<longrightarrow> c = JStr (contract_value v))
         \<and> (\<forall>v. symb = Some v \<longrightarrow> sy = JStr v))"
  using assms
  by (cases pair; cases ct; cases symb)
    (auto simp: get_pair_matches_def and_then_def opt_field_is_def field_is_def)

lemma one_symbol_cases:
  "one_symbol found =
     (case found of
        [] \<Rightarrow> Inl (AssertionError ''Symbol not found'')
      | [x] \<Rightarrow> Inr x
      | x # y # rest \<Rightarrow> Inl (AssertionError ''More than 1 symbol found''))"
  by (simp add: one_symbol_def py_assert_def split: list.splits)

lemma get_pair_found:
  assumes "get_exchange_info E (length (requests s)) JNull = Inr info"
    and "subscript info ''symbols'' = Inr symbols" and "py_iter symbols = Inr xs"
    and "filter_err (get_pair_matches symb pair ct) xs = Inr found"
  shows "fst (get_pair E s symb pair ct) = ebind (one_symbol found) make_futures_pair"
  using assms by (simp add: get_pair_def pair_of_catalog_def)

text \<open>
  Claim C6.  \<^verbatim>\<open>FuturesExchange.get_pair\<close> keeps the catalog entries that pass the tests for
  the given pair, contract type and symbol (an argument that is \<^verbatim>\<open>None\<close> tests nothing).
  When exactly one entry is kept, the result is the \<^verbatim>\<open>FuturesPair\<close> built from that entry;
  when none or more than one is kept, the call fails, with the assertion errors
  \<^verbatim>\<open>Symbol not found\<close> and \<^verbatim>\<open>More than 1 symbol found\<close>.
\<close>

theorem get_pair_one_match:
  assumes "get_exchange_info E (length (requests s)) JNull = Inr info"
    and "subscript info ''symbols'' = Inr symbols" and "py_iter symbols = Inr xs"
    and "filter_err (get_pair_matches symb pair ct) xs = Inr found"
  shows "(\<forall>x\<in>set xs. \<forall>p c sy. subscript x ''pair'' = Inr p \<longrightarrow> subscript x ''contractType'' = Inr c
            \<longrightarrow> subscript x ''symbol'' = Inr sy
            \<longrightarrow> (x \<in> set found) = ((\<forall>v. pair = Some v \<longrightarrow> p = JStr v)
                  \<and> (\<forall>v. ct = Some v \<longrightarrow> c = JStr (contract_value v))
                  \<and> (\<forall>v. symb = Some v \<longrightarrow> sy = JStr v)))
    \<and> (\<forall>x. found = [x] \<longrightarrow> fst (get_pair E s symb pair ct) = make_futures_pair x)
    \<and> (\<forall>x sy b q c t dd. found = [x] \<longrightarrow> subscript x ''symbol'' = Inr sy
          \<longrightarrow> subscript x ''baseAsset'' = Inr b \<longrightarrow> subscript x ''quoteAsset'' = Inr q
          \<longrightarrow> subscript x ''contractType'' = Inr c \<longrightarrow> BinanceContractType_of c = Inr t
          \<longrightarrow> get x ''deliveryDate'' = Inr dd
          \<longrightarrow> fst (get_pair E s symb pair ct)
              = Inr \<lparr>base_symbol = b, quote_symbol = q, symbol = sy, contract_type = t,
                     delivery_date = dd\<rparr>)
    \<and> (found = [] \<longrightarrow> fst (get_pair E s symb pair ct) = Inl (AssertionError ''Symbol not found''))
    \<and> (1 < length found
          \<longrightarrow> fst (get_pair E s symb pair ct) = Inl (AssertionError ''More than 1 symbol found''))"
proof -
  note g = get_pair_found[OF assms]
  have f: "found = filter (\<lambda>x. get_pair_matches symb pair ct x = Inr True) xs"
    using assms(4) by (rule filter_err_Inr)
  have a: "\<forall>x\<in>set xs. \<forall>p c sy. subscript x ''pair'' = Inr p \<longrightarrow> subscript x ''contractType'' = Inr c
            \<longrightarrow> subscript x ''symbol'' = Inr sy
            \<longrightarrow> (x \<in> set found) = ((\<forall>v. pair = Some v \<longrightarrow> p = JStr v)
                  \<and> (\<forall>v. ct = Some v \<longrightarrow> c = JStr (contract_value v))
                  \<and> (\<forall>v. symb = Some v \<longrightarrow> sy = JStr v))"
    unfolding f by (simp add: get_pair_matches_fields)
  have b: "\<forall>x. found = [x] \<longrightarrow> fst (get_pair E s symb pair ct) = make_futures_pair x"
    unfolding g by (simp add: one_symbol_cases)
  have c: "\<forall>x sy b q c t dd. found = [x] \<longrightarrow> subscript x ''symbol'' = Inr sy
          \<longrightarrow> subscript x ''baseAsset'' = Inr b \<longrightarrow> subscript x ''quoteAsset'' = Inr q
          \<longrightarrow> subscript x ''contractType'' = Inr c \<longrightarrow> BinanceContractType_of c = Inr t
          \<longrightarrow> get x ''deliveryDate'' = Inr dd
          \<longrightarrow> fst (get_pair E s symb pair ct)
              = Inr \<lparr>base_symbol = b, quote_symbol = q, symbol = sy, contract_type = t,
                     delivery_date = dd\<rparr>"
    unfolding g by (simp add: one_symbol_cases make_futures_pair_def)
  have d: "found = [] \<longrightarrow> fst (get_pair E s symb pair ct) = Inl (AssertionError ''Symbol not found'')"
    unfolding g by (simp add: one_symbol_cases)
  have e: "1 < length found
      \<longrightarrow> fst (get_pair E s symb pair ct) = Inl (AssertionError ''More than 1 symbol found'')"
    unfolding g by (cases found rule: list.exhaust[case_product list.exhaust])
      (simp_all add: one_symbol_cases split: list.splits)
  from a b c d e show ?thesis by blast
qed

lemmas catalog_eval = example_env_def example_catalog_def entry_def py_iter_def
  get_pair_matches_def and_then_def opt_field_is_def field_is_def

lemma example_request:
  "get_exchange_info example_env (length (requests (new_exchange :: unit FuturesExchange))) JNull
     = Inr example_catalog"
  by (simp add: example_env_def)

lemma example_symbols:
  "subscript example_catalog ''symbols''
     = Inr (JArr [entry ''ABCUSDT'' ''ABCUSDT'' ''PERPETUAL'' ''ABC'' ''USDT'' 4133404800000,
             entry ''ABCUSDT_240329'' ''ABCUSDT'' ''CURRENT_QUARTER'' ''ABC'' ''USDT'' 1711699200000,
             entry ''XYZUSDT'' ''XYZUSDT'' ''PERPETUAL'' ''XYZ'' ''USDT'' 4133404800000])"
  by (simp add: example_catalog_def subscript_def)

theorem get_pair_one_match_witness:
  "fst (get_pair example_env (new_exchange :: unit FuturesExchange) None (Some ''ABCUSDT'')
         (Some PERPETUAL))
     = Inr \<lparr>base_symbol = JStr ''ABC'', quote_symbol = JStr ''USDT'', symbol = JStr ''ABCUSDT'',
            contract_type = PERPETUAL, delivery_date = JInt 4133404800000\<rparr>
   \<and> fst (get_pair example_env (new_exchange :: unit FuturesExchange) None (Some ''ABCUSDT'') None)
     = Inl (AssertionError ''More than 1 symbol found'')
   \<and> fst (get_pair example_env (new_exchange :: unit FuturesExchange) None (Some ''NOPE'') None)
     = Inl (AssertionError ''Symbol not found'')"
proof -
  let ?a = "entry ''ABCUSDT'' ''ABCUSDT'' ''PERPETUAL'' ''ABC'' ''USDT'' 4133404800000"
  let ?b = "entry ''ABCUSDT_240329'' ''ABCUSDT'' ''CURRENT_QUARTER'' ''ABC'' ''USDT'' 1711699200000"
  let ?c = "entry ''XYZUSDT'' ''XYZUSDT'' ''PERPETUAL'' ''XYZ'' ''USDT'' 4133404800000"
  have it: "py_iter (JArr [?a, ?b, ?c]) = Inr [?a, ?b, ?c]" by (simp add: py_iter_def)
  have f1: "filter_err (get_pair_matches None (Some ''ABCUSDT'') (Some PERPETUAL)) [?a, ?b, ?c]
      = Inr [?a]"
    by (simp add: catalog_eval subscript_def)
  have f2: "filter_err (get_pair_matches None (Some ''ABCUSDT'') None) [?a, ?b, ?c] = Inr [?a, ?b]"
    by (simp add: catalog_eval subscript_def)
  have f3: "filter_err (get_pair_matches None (Some ''NOPE'') None) [?a, ?b, ?c] = Inr []"
    by (simp add: catalog_eval subscript_def)
  have fields: "subscript ?a ''symbol'' = Inr (JStr ''ABCUSDT'')"
    "subscript ?a ''baseAsset'' = Inr (JStr ''ABC'')"
    "subscript ?a ''quoteAsset'' = Inr (JStr ''USDT'')"
    "subscript ?a ''contractType'' = Inr (JStr ''PERPETUAL'')"
    "BinanceContractType_of (JStr ''PERPETUAL'') = Inr PERPETUAL"
    "get ?a ''deliveryDate'' = Inr (JInt 4133404800000)"
    by (simp_all add: entry_def subscript_def get_def get_default_def BinanceContractType_of_def)
  from get_pair_one_match[OF example_request example_symbols it f1] fields
  have r1: "fst (get_pair example_env (new_exchange :: unit FuturesExchange) None (Some ''ABCUSDT'')
         (Some PERPETUAL))
     = Inr \<lparr>base_symbol = JStr ''ABC'', quote_symbol = JStr ''USDT'', symbol = JStr ''ABCUSDT'',
            contract_type = PERPETUAL, delivery_date = JInt 4133404800000\<rparr>"
    by blast
  from get_pair_one_match[OF example_request example_symbols it f2]
  have r2: "fst (get_pair example_env (new_exchange :: unit FuturesExchange) None (Some ''ABCUSDT'')
      None) = Inl (AssertionError ''More than 1 symbol found'')"
    by simp
  from get_pair_one_match[OF example_request example_symbols it f3]
  have r3: "fst (get_pair example_env (new_exchange :: unit FuturesExchange) None (Some ''NOPE'')
      None) = Inl (AssertionError ''Symbol not found'')"
    by simp
  from r1 r2 r3 show ?thesis by blast
qed

lemma interval_legacy:
  "\<forall>(n, tok)\<in>set legacy_durations.
     map_of interval_table (JInt n) = Some tok \<and> map_of interval_table (JStr tok) = Some tok"
  by (simp add: interval_table_def legacy_durations_def)

lemma interval_unknown:
  "map_of interval_table (JStr ''2m'') = None" "map_of interval_table (JInt 7) = None"
  by (simp_all add: interval_table_def legacy_durations_def)

text \<open>
  Claim C5.  In \<^verbatim>\<open>subscribe_to_bar_events\<close> every legacy number of seconds and its symbolic
  token select the same interval, so the two calls do the same (60 and \<^verbatim>\<open>"1m"\<close> among them);
  a duration the table does not have, such as \<^verbatim>\<open>"2m"\<close> or 7, fails the assertion
  \<^verbatim>\<open>Invalid bar_duration\<close>, which is how the code signals the configuration error, and leaves
  the facade as it was: no websocket client, no channel registration, no subscription.
\<close>

theorem bar_duration_normalised:
  "(\<forall>(n, tok)\<in>set legacy_durations.
      map_of interval_table (JInt n) = Some tok \<and> map_of interval_table (JStr tok) = Some tok
      \<and> subscribe_to_bar_events E s pair (JInt n) h = subscribe_to_bar_events E s pair (JStr tok) h)
   \<and> subscribe_to_bar_events E s pair (JInt 60) h = subscribe_to_bar_events E s pair (JStr ''1m'') h
   \<and> (\<forall>d k. dict_key d = Inr k \<longrightarrow> map_of interval_table k = None
        \<longrightarrow> subscribe_to_bar_events E s pair d h = (Inl (AssertionError ''Invalid bar_duration''), s))
   \<and> subscribe_to_bar_events E s pair (JStr ''2m'') h
       = (Inl (AssertionError ''Invalid bar_duration''), s)
   \<and> subscribe_to_bar_events E s pair (JInt 7) h
       = (Inl (AssertionError ''Invalid bar_duration''), s)"
proof -
  have a: "\<forall>(n, tok)\<in>set legacy_durations.
      map_of interval_table (JInt n) = Some tok \<and> map_of interval_table (JStr tok) = Some tok
      \<and> subscribe_to_bar_events E s pair (JInt n) h = subscribe_to_bar_events E s pair (JStr tok) h"
    using interval_legacy by (auto simp: subscribe_to_bar_events_def dict_key_def)
  have m: "(60, ''1m'') \<in> set legacy_durations" by (simp add: legacy_durations_def)
  from a m have b: "subscribe_to_bar_events E s pair (JInt 60) h
      = subscribe_to_bar_events E s pair (JStr ''1m'') h" by blast
  have c: "\<forall>d k. dict_key d = Inr k \<longrightarrow> map_of interval_table k = None
        \<longrightarrow> subscribe_to_bar_events E s pair d h = (Inl (AssertionError ''Invalid bar_duration''), s)"
    by (simp add: subscribe_to_bar_events_def)
  have d: "subscribe_to_bar_events E s pair (JStr ''2m'') h
       = (Inl (AssertionError ''Invalid bar_duration''), s)"
    by (simp add: subscribe_to_bar_events_def dict_key_def interval_unknown)
  have e: "subscribe_to_bar_events E s pair (JInt 7) h
       = (Inl (AssertionError ''Invalid bar_duration''), s)"
    by (simp add: subscribe_to_bar_events_def dict_key_def interval_unknown)
  from a b c d e show ?thesis by blast
qed

theorem bar_duration_normalised_witness:
  "(3600, ''1h'') \<in> set legacy_durations
   \<and> subscribe_to_bar_events example_env (new_exchange :: unit SpotExchange) btc_usdt (JInt 3600) ()
     = subscribe_to_bar_events example_env new_exchange btc_usdt (JStr ''1h'') ()
   \<and> fst (subscribe_to_bar_events example_env (new_exchange :: unit SpotExchange) btc_usdt
         (JStr ''1h'') ()) = Inr ()
   \<and> dict_key (JStr ''2m'') = Inr (JStr ''2m'')
   \<and> map_of interval_table (JStr ''2m'') = None
   \<and> subscribe_to_bar_events example_env (new_exchange :: unit SpotExchange) btc_usdt (JStr ''2m'') ()
     = (Inl (AssertionError ''Invalid bar_duration''), new_exchange)"
proof -
  have m: "(3600, ''1h'') \<in> set legacy_durations" by (simp add: legacy_durations_def)
  have k: "dict_key (JStr ''2m'') = Inr (JStr ''2m'')" by (simp add: dict_key_def)
  note u = interval_unknown(1)
  note t = bar_duration_normalised[of example_env "new_exchange :: unit SpotExchange" btc_usdt "()"]
  from t m have e: "subscribe_to_bar_events example_env (new_exchange :: unit SpotExchange) btc_usdt
      (JInt 3600) () = subscribe_to_bar_events example_env new_exchange btc_usdt (JStr ''1h'') ()"
    by blast
  from t k u have f: "subscribe_to_bar_events example_env (new_exchange :: unit SpotExchange)
      btc_usdt (JStr ''2m'') () = (Inl (AssertionError ''Invalid bar_duration''), new_exchange)"
    by blast
  have i: "map_of interval_table (JStr ''1h'') = Some ''1h''"
    by (simp add: interval_table_def legacy_durations_def)
  have r: "fst (subscribe_to_bar_events example_env (new_exchange :: unit SpotExchange) btc_usdt
         (JStr ''1h'') ()) = Inr ()"
    by (simp add: subscribe_to_bar_events_def dict_key_def i example_env_def btc_usdt_def
        pair_text_def)
  from m e r k u f show ?thesis by blast
qed

lemma subscribe_channel:
  "subscribe E s c =
     (case channel_of E c of
        Inl e \<Rightarrow> (Inl e, s)
      | Inr k \<Rightarrow> (Inr (), subscribe_to_ws_channel_events s k (source_of c) (handler_of c)))"
  by (cases c)
    (auto simp: subscribe_to_bar_events_def subscribe_to_order_book_events_def
      subscribe_to_trade_events_def ebind_def split: sum.splits option.splits)

lemma consistent_new: "consistent new_exchange"
  by (simp add: consistent_def new_exchange_def)

lemma subscribe_step:
  fixes s :: "('h, 'k, 'v) exchange" and k :: string and f :: event_source and h :: 'h
  assumes "consistent s"
  defines "s' \<equiv> subscribe_to_ws_channel_events s k f h"
  shows "consistent s' \<and> (\<exists>r. registered s' k = Some r \<and> dispatcher s' = dispatcher s @ [(r, h)])
      \<and> (\<forall>k' r'. registered s k' = Some r' \<longrightarrow> registered s' k' = Some r')
      \<and> set (map fst (event_sources s')) = insert k (set (map fst (event_sources s)))
      \<and> ws_clients_created s' = 1"
proof -
  obtain ws s1 where g: "get_ws_client s = (ws, s1)" by fastforce
  have s1: "websocket s1 = Some ws" "consistent s1" "ws_clients_created s1 = 1"
    "event_sources s1 = event_sources s" "dispatcher s1 = dispatcher s"
    "\<And>k' r'. registered s k' = Some r' \<Longrightarrow> registered s1 k' = Some r'"
    using g assms(1)
    by (auto simp: get_ws_client_def consistent_def registered_def get_channel_event_source_def
        split: option.splits)
  from s1(1,2) have inv: "distinct (map fst (event_sources s1))"
    "\<And>k r. (map_of (channels ws) k = Some r)
        = (r < length (event_sources s1) \<and> fst (event_sources s1 ! r) = k)"
    by (simp_all add: consistent_def)
  show ?thesis
  proof (cases "map_of (channels ws) k")
    case (Some r)
    then have e: "s' = s1\<lparr>dispatcher := dispatcher s1 @ [(r, h)]\<rparr>"
      by (simp add: s'_def subscribe_to_ws_channel_events_def g get_channel_event_source_def)
    from Some inv(2) have "k \<in> set (map fst (event_sources s1))" by force
    then show ?thesis
      using s1 Some unfolding e
      by (auto simp: consistent_def registered_def get_channel_event_source_def)
  next
    case None
    define n where "n = length (event_sources s1)"
    from None have e: "s' = s1\<lparr>event_sources := event_sources s1 @ [(k, f)],
        websocket := Some (set_channel_event_source ws k n),
        dispatcher := dispatcher s1 @ [(n, h)]\<rparr>"
      by (simp add: s'_def subscribe_to_ws_channel_events_def g get_channel_event_source_def
          Let_def n_def)
    have nk: "k \<notin> set (map fst (event_sources s1))"
    proof
      assume "k \<in> set (map fst (event_sources s1))"
      then obtain i where i: "i < length (event_sources s1)" "fst (event_sources s1 ! i) = k"
        by (auto simp: in_set_conv_nth)
      then have "map_of (channels ws) k = Some i" by (simp add: inv(2))
      with None show False by simp
    qed
    have m: "\<And>k2 r. (map_of (channels (set_channel_event_source ws k n)) k2 = Some r)
        = (r < length (event_sources s1 @ [(k, f)]) \<and> fst ((event_sources s1 @ [(k, f)]) ! r) = k2)"
    proof -
      fix k2 r
      show "(map_of (channels (set_channel_event_source ws k n)) k2 = Some r)
        = (r < length (event_sources s1 @ [(k, f)]) \<and> fst ((event_sources s1 @ [(k, f)]) ! r) = k2)"
      proof (cases "k2 = k")
        case True
        have "\<And>r. r < n \<Longrightarrow> fst (event_sources s1 ! r) \<noteq> k"
          using nk by (auto simp: n_def)
        then show ?thesis using True
          by (auto simp: set_channel_event_source_def update_conv' nth_append n_def)
      next
        case False
        then show ?thesis using inv(2)[of k2 r]
          by (auto simp: set_channel_event_source_def update_conv' nth_append n_def)
      qed
    qed
    have c: "consistent s'" unfolding e using s1(3) inv(1) nk m by (simp add: consistent_def)
    have p: "\<forall>k' r'. registered s k' = Some r' \<longrightarrow> registered s' k' = Some r'"
    proof (intro allI impI)
      fix k' r'
      assume "registered s k' = Some r'"
      then have "registered s1 k' = Some r'" by (rule s1(6))
      then have a: "map_of (channels ws) k' = Some r'"
        using s1(1) by (simp add: registered_def get_channel_event_source_def)
      with None have "k' \<noteq> k" by auto
      with a show "registered s' k' = Some r'" unfolding e
        by (simp add: registered_def get_channel_event_source_def set_channel_event_source_def
            update_conv')
    qed
    have r: "registered s' k = Some n" unfolding e
      by (simp add: registered_def get_channel_event_source_def set_channel_event_source_def
          update_conv')
    have q: "set (map fst (event_sources s')) = insert k (set (map fst (event_sources s)))"
      "ws_clients_created s' = 1" "dispatcher s' = dispatcher s @ [(n, h)]"
      unfolding e using s1(3,4,5) by auto
    from c p r q show ?thesis by blast
  qed
qed

lemma subscribe_all_Cons:
  "subscribe_all E s (c # calls) = subscribe_all E (snd (subscribe E s c)) calls"
  by (simp add: subscribe_all_def)

lemma subscribe_all_inv:
  "consistent s \<Longrightarrow>
   consistent (subscribe_all E s calls)
   \<and> set (map fst (event_sources (subscribe_all E s calls)))
       = set (map fst (event_sources s)) \<union> fst ` set (subscribed E calls)
   \<and> dispatcher (subscribe_all E s calls)
       = dispatcher s
         @ map (\<lambda>(k, h). (the (registered (subscribe_all E s calls) k), h)) (subscribed E calls)
   \<and> (\<forall>k r. registered s k = Some r \<longrightarrow> registered (subscribe_all E s calls) k = Some r)
   \<and> (\<forall>k\<in>fst ` set (subscribed E calls). registered (subscribe_all E s calls) k \<noteq> None)
   \<and> (subscribed E calls \<noteq> [] \<longrightarrow> ws_clients_created (subscribe_all E s calls) = 1)
   \<and> (subscribed E calls = [] \<longrightarrow> subscribe_all E s calls = s)"
proof (induction calls arbitrary: s)
  case Nil
  then show ?case by (simp add: subscribe_all_def)
next
  case (Cons c calls)
  show ?case
  proof (cases "channel_of E c")
    case (Inl e)
    then have "snd (subscribe E s c) = s" by (simp add: subscribe_channel)
    then show ?thesis using Cons.IH[OF Cons.prems] Inl by (simp add: subscribe_all_Cons)
  next
    case (Inr k)
    define s1 where "s1 = subscribe_to_ws_channel_events s k (source_of c) (handler_of c)"
    define s2 where "s2 = subscribe_all E s1 calls"
    have e: "subscribe_all E s (c # calls) = s2"
      by (simp add: subscribe_all_Cons subscribe_channel Inr s1_def s2_def)
    have sb: "subscribed E (c # calls) = (k, handler_of c) # subscribed E calls"
      by (simp add: Inr)
    note st = subscribe_step[OF Cons.prems, of k "source_of c" "handler_of c", folded s1_def]
    from st obtain r where r: "registered s1 k = Some r"
      "dispatcher s1 = dispatcher s @ [(r, handler_of c)]" by blast
    from st have c1: "consistent s1" by blast
    note ih = Cons.IH[OF c1, folded s2_def]
    from ih r(1) have r2: "registered s2 k = Some r" by blast
    have a: "consistent s2" using ih by blast
    have b: "set (map fst (event_sources s2))
        = set (map fst (event_sources s)) \<union> fst ` set ((k, handler_of c) # subscribed E calls)"
      using ih st by auto
    have d: "dispatcher s2 = dispatcher s
        @ map (\<lambda>(k, h). (the (registered s2 k), h)) ((k, handler_of c) # subscribed E calls)"
      using ih r(2) r2 by simp
    have p: "\<forall>k r. registered s k = Some r \<longrightarrow> registered s2 k = Some r"
      using ih st by blast
    have n: "\<forall>k\<in>fst ` set ((k, handler_of c) # subscribed E calls). registered s2 k \<noteq> None"
      using ih r2 by auto
    have w: "ws_clients_created s2 = 1"
    proof (cases "subscribed E calls = []")
      case True
      with ih have "s2 = s1" by blast
      with st show ?thesis by simp
    next
      case False
      with ih show ?thesis by blast
    qed
    show ?thesis unfolding e sb using a b d p n w by simp
  qed
qed

lemma count_distinct_fst:
  assumes "distinct (map fst es)"
  shows "length (filter (\<lambda>e. fst e = k) es) = (if k \<in> fst ` set es then 1 else 0)"
proof -
  have "length (filter (\<lambda>e. fst e = k) es) = length (filter (\<lambda>c. c = k) (map fst es))"
    by (simp add: filter_map comp_def)
  also have "\<dots> = card ({c. c = k} \<inter> set (map fst es))"
    using assms by (rule distinct_length_filter)
  also have "\<dots> = (if k \<in> fst ` set es then 1 else 0)" by auto
  finally show ?thesis .
qed

text \<open>
  Claim C2.  After any sequence of subscription calls on a new facade: for every channel key
  exactly one event source has been created if a handler was subscribed to it, and none
  otherwise; every subscribed handler is registered with the dispatcher, in the order of the
  calls, against the event source registered for its channel, which is the one created for
  that key; and one websocket client has been constructed if anything was subscribed, none
  otherwise.
\<close>

theorem one_event_source_per_channel:
  fixes E :: env and calls :: "'h subscription list"
  defines "s' \<equiv> subscribe_all E (new_exchange :: ('h, 'k, 'v) exchange) calls"
  shows "(\<forall>k. length (filter (\<lambda>e. fst e = k) (event_sources s'))
         = (if k \<in> fst ` set (subscribed E calls) then 1 else 0))
   \<and> (\<forall>(k, h)\<in>set (subscribed E calls). \<exists>r.
         registered s' k = Some r \<and> r < length (event_sources s')
         \<and> fst (event_sources s' ! r) = k \<and> (r, h) \<in> set (dispatcher s'))
   \<and> dispatcher s' = map (\<lambda>(k, h). (the (registered s' k), h)) (subscribed E calls)
   \<and> ws_clients_created s' = (if subscribed E calls = [] then 0 else 1)"
proof -
  have cn: "consistent (new_exchange :: ('h, 'k, 'v) exchange)" by (rule consistent_new)
  note inv = subscribe_all_inv[OF cn, of E calls, folded s'_def]
  have es: "set (map fst (event_sources s')) = fst ` set (subscribed E calls)"
    using inv by (simp add: new_exchange_def)
  have d: "dispatcher s' = map (\<lambda>(k, h). (the (registered s' k), h)) (subscribed E calls)"
    using inv by (simp add: new_exchange_def)
  have c: "consistent s'" using inv by blast
  have w: "ws_clients_created s' = (if subscribed E calls = [] then 0 else 1)"
    using inv by (auto simp: new_exchange_def)
  have dist: "distinct (map fst (event_sources s'))"
  proof (cases "websocket s'")
    case None
    with c show ?thesis by (simp add: consistent_def)
  next
    case (Some ws)
    with c show ?thesis by (simp add: consistent_def)
  qed
  have one: "\<forall>k. length (filter (\<lambda>e. fst e = k) (event_sources s'))
      = (if k \<in> fst ` set (subscribed E calls) then 1 else 0)"
    using count_distinct_fst[OF dist] es by simp
  have reg: "\<forall>(k, h)\<in>set (subscribed E calls). \<exists>r. registered s' k = Some r
      \<and> r < length (event_sources s') \<and> fst (event_sources s' ! r) = k
      \<and> (r, h) \<in> set (dispatcher s')"
  proof (intro ballI, clarify)
    fix k h
    assume m: "(k, h) \<in> set (subscribed E calls)"
    then have "k \<in> fst ` set (subscribed E calls)" by force
    with inv obtain r where r: "registered s' k = Some r" by blast
    then obtain ws where ws: "websocket s' = Some ws" "map_of (channels ws) k = Some r"
      by (auto simp: registered_def get_channel_event_source_def split: option.splits)
    with c have "r < length (event_sources s') \<and> fst (event_sources s' ! r) = k"
      by (simp add: consistent_def)
    moreover have "(r, h) \<in> set (dispatcher s')" unfolding d using m r by force
    ultimately show "\<exists>r. registered s' k = Some r \<and> r < length (event_sources s')
      \<and> fst (event_sources s' ! r) = k \<and> (r, h) \<in> set (dispatcher s')"
      using r by blast
  qed
  from one reg d w show ?thesis by blast
qed

lemmas subscribe_eval = subscribe_all_def subscribe_to_bar_events_def
  subscribe_to_trade_events_def subscribe_to_order_book_events_def
  subscribe_to_ws_channel_events_def get_ws_client_def get_channel_event_source_def
  set_channel_event_source_def new_exchange_def dict_key_def example_env_def btc_usdt_def
  pair_text_def interval_table_def legacy_durations_def

lemma example_subscribed:
  "subscribed example_env example_calls
     = [(''BTCUSDT@trade'', 1), (''BTCUSDT@kline_1m'', 2), (''BTCUSDT@trade'', 3),
        (''BTCUSDT@kline_1m'', 4)]"
  by (simp add: example_calls_def subscribe_eval)

lemma example_run:
  "subscribe_all example_env (new_exchange :: nat SpotExchange) example_calls
     = \<lparr>websocket = Some \<lparr>channels = [(''BTCUSDT@trade'', 0), (''BTCUSDT@kline_1m'', 1)]\<rparr>,
        pair_info_cache = Map.empty,
        dispatcher = [(0, 1), (1, 2), (0, 3), (1, 4)],
        event_sources = [(''BTCUSDT@trade'', TradesSource btc_usdt),
                         (''BTCUSDT@kline_1m'', KlinesSource btc_usdt)],
        ws_clients_created = 1, requests = []\<rparr>"
  by (simp add: example_calls_def subscribe_eval)

theorem one_event_source_per_channel_witness:
  "subscribed example_env example_calls
     = [(''BTCUSDT@trade'', 1), (''BTCUSDT@kline_1m'', 2), (''BTCUSDT@trade'', 3),
        (''BTCUSDT@kline_1m'', 4)]
   \<and> length (filter (\<lambda>e. fst e = ''BTCUSDT@trade'')
        (event_sources (subscribe_all example_env (new_exchange :: nat SpotExchange) example_calls)))
     = 1
   \<and> (\<exists>r. registered (subscribe_all example_env (new_exchange :: nat SpotExchange) example_calls)
          ''BTCUSDT@trade'' = Some r
        \<and> (r, 1) \<in> set (dispatcher (subscribe_all example_env (new_exchange :: nat SpotExchange)
              example_calls))
        \<and> (r, 3) \<in> set (dispatcher (subscribe_all example_env (new_exchange :: nat SpotExchange)
              example_calls)))
   \<and> ws_clients_created (subscribe_all example_env (new_exchange :: nat SpotExchange) example_calls)
     = 1"
proof -
  note t = one_event_source_per_channel[of example_env example_calls,
      where ?'k = Pair and ?'v = PairInfoEx]
  have m: "(''BTCUSDT@trade'', 1) \<in> set (subscribed example_env example_calls)"
    "(''BTCUSDT@trade'', 3) \<in> set (subscribed example_env example_calls)"
    "''BTCUSDT@trade'' \<in> fst ` set (subscribed example_env example_calls)"
    "subscribed example_env example_calls \<noteq> []"
    by (simp_all add: example_subscribed)
  from t m(3) have a: "length (filter (\<lambda>e. fst e = ''BTCUSDT@trade'')
      (event_sources (subscribe_all example_env (new_exchange :: nat SpotExchange) example_calls)))
      = 1" by simp
  from t m(1) obtain r where r: "registered (subscribe_all example_env
      (new_exchange :: nat SpotExchange) example_calls) ''BTCUSDT@trade'' = Some r"
    "(r, 1) \<in> set (dispatcher (subscribe_all example_env (new_exchange :: nat SpotExchange)
        example_calls))" by blast
  from t m(2) r(1) have r3: "(r, 3) \<in> set (dispatcher (subscribe_all example_env
      (new_exchange :: nat SpotExchange) example_calls))" by fastforce
  from t m(4) have w: "ws_clients_created (subscribe_all example_env
      (new_exchange :: nat SpotExchange) example_calls) = 1" by simp
  from example_subscribed a r r3 w show ?thesis by blast
qed

lemma spot_hit:
  "pair_info_cache s p = Some info \<Longrightarrow> spot_get_pair_info E s p = (Inr info, s)"
  by (simp add: spot_get_pair_info_def)

lemma spot_miss:
  assumes "pair_info_cache s p = None" and "spot_get_pair_info E s p = (Inr info, s1)"
  shows "\<exists>symb. s1 = s\<lparr>requests := requests s @ [JStr symb],
                       pair_info_cache := (pair_info_cache s)(p \<mapsto> info)\<rparr>"
  using assms
  by (auto simp: spot_get_pair_info_def Let_def split: sum.splits)

lemma spot_fail:
  assumes "spot_get_pair_info E s p = (Inl e, s1)"
  shows "pair_info_cache s1 = pair_info_cache s"
  using assms
  by (auto simp: spot_get_pair_info_def Let_def split: sum.splits option.splits)

lemma spot_keeps:
  "pair_info_cache s p = Some info
     \<Longrightarrow> pair_info_cache (snd (spot_get_pair_info E s q)) p = Some info"
  by (auto simp: spot_get_pair_info_def Let_def split: sum.splits option.splits)

lemma spot_lookups_keep:
  "pair_info_cache s p = Some info \<Longrightarrow> pair_info_cache (spot_lookups E s ps) p = Some info"
proof (induction ps arbitrary: s)
  case Nil
  then show ?case by (simp add: spot_lookups_def)
next
  case (Cons q ps)
  from Cons.IH[OF spot_keeps[OF Cons.prems, of E q]] show ?case by (simp add: spot_lookups_def)
qed

lemma futures_hit:
  "pair_info_cache s p = Some info \<Longrightarrow> futures_get_pair_info E s p = (Inr info, s)"
  by (simp add: futures_get_pair_info_def)

lemma futures_miss:
  assumes "pair_info_cache s p = None" and "futures_get_pair_info E s p = (Inr info, s1)"
  shows "s1 = s\<lparr>requests := requests s @ [JNull],
                 pair_info_cache := (pair_info_cache s)(p \<mapsto> info)\<rparr>"
  using assms
  by (auto simp: futures_get_pair_info_def Let_def split: sum.splits)

lemma futures_fail:
  assumes "futures_get_pair_info E s p = (Inl e, s1)"
  shows "pair_info_cache s1 = pair_info_cache s"
  using assms
  by (auto simp: futures_get_pair_info_def Let_def split: sum.splits option.splits)

lemma futures_keeps:
  "pair_info_cache s p = Some info
     \<Longrightarrow> pair_info_cache (snd (futures_get_pair_info E s q)) p = Some info"
  by (auto simp: futures_get_pair_info_def Let_def split: sum.splits option.splits)

lemma futures_lookups_keep:
  "pair_info_cache s p = Some info \<Longrightarrow> pair_info_cache (futures_lookups E s ps) p = Some info"
proof (induction ps arbitrary: s)
  case Nil
  then show ?case by (simp add: futures_lookups_def)
next
  case (Cons q ps)
  from Cons.IH[OF futures_keeps[OF Cons.prems, of E q]] show ?case
    by (simp add: futures_lookups_def)
qed

text \<open>
  Claim C1, as stated, fails.  Here the venue rejects the symbol: the first lookup raises
  after its request and stores nothing, and the second call issues a second request.
\<close>

theorem pair_info_failed_lookup_counterexample:
  "fst (spot_get_pair_info example_env (new_exchange :: unit SpotExchange) eth_usdt)
     = Inl (ClientError ''Invalid symbol'')
   \<and> pair_info_cache
       (snd (spot_get_pair_info example_env (new_exchange :: unit SpotExchange) eth_usdt)) eth_usdt
     = None
   \<and> requests
       (snd (spot_get_pair_info example_env
          (snd (spot_get_pair_info example_env (new_exchange :: unit SpotExchange) eth_usdt))
          eth_usdt))
     = [JStr ''ETHUSDT'', JStr ''ETHUSDT'']"
  by (simp add: spot_get_pair_info_def new_exchange_def example_env_def eth_usdt_def pair_text_def)

text \<open>
  Claim C1, amended.  For every pair that is not yet cached and whose lookup succeeds, the
  lookup issues exactly one exchange-info request and stores its result under the pair; the
  next call returns the stored value and changes nothing, so it issues no request; and
  whatever lookups follow, the value stored under the pair stays and a lookup of the pair
  keeps returning it without a request.  This holds for \<^verbatim>\<open>SpotExchange.get_pair_info\<close> and
  for \<^verbatim>\<open>FuturesExchange.get_pair_info\<close>.
\<close>

theorem pair_info_cached_after_success:
  fixes s s1 :: "'h SpotExchange" and t t1 :: "'g FuturesExchange"
  shows "(pair_info_cache s p = None \<longrightarrow> spot_get_pair_info E s p = (Inr info, s1)
      \<longrightarrow> length (requests s1) = length (requests s) + 1
          \<and> pair_info_cache s1 p = Some info
          \<and> spot_get_pair_info E s1 p = (Inr info, s1)
          \<and> (\<forall>ps. pair_info_cache (spot_lookups E s1 ps) p = Some info
                \<and> spot_get_pair_info E (spot_lookups E s1 ps) p
                    = (Inr info, spot_lookups E s1 ps)))
   \<and> (pair_info_cache t fp = None \<longrightarrow> futures_get_pair_info E t fp = (Inr finfo, t1)
      \<longrightarrow> length (requests t1) = length (requests t) + 1
          \<and> pair_info_cache t1 fp = Some finfo
          \<and> futures_get_pair_info E t1 fp = (Inr finfo, t1)
          \<and> (\<forall>ps. pair_info_cache (futures_lookups E t1 ps) fp = Some finfo
                \<and> futures_get_pair_info E (futures_lookups E t1 ps) fp
                    = (Inr finfo, futures_lookups E t1 ps)))"
proof -
  have a: "pair_info_cache s p = None \<longrightarrow> spot_get_pair_info E s p = (Inr info, s1)
      \<longrightarrow> length (requests s1) = length (requests s) + 1
          \<and> pair_info_cache s1 p = Some info
          \<and> spot_get_pair_info E s1 p = (Inr info, s1)
          \<and> (\<forall>ps. pair_info_cache (spot_lookups E s1 ps) p = Some info
                \<and> spot_get_pair_info E (spot_lookups E s1 ps) p
                    = (Inr info, spot_lookups E s1 ps))"
  proof (intro impI)
    assume n: "pair_info_cache s p = None" and r: "spot_get_pair_info E s p = (Inr info, s1)"
    from spot_miss[OF n r] have l: "length (requests s1) = length (requests s) + 1"
      and c: "pair_info_cache s1 p = Some info" by auto
    from c have k: "\<forall>ps. pair_info_cache (spot_lookups E s1 ps) p = Some info"
      by (simp add: spot_lookups_keep)
    from l c k show "length (requests s1) = length (requests s) + 1
          \<and> pair_info_cache s1 p = Some info
          \<and> spot_get_pair_info E s1 p = (Inr info, s1)
          \<and> (\<forall>ps. pair_info_cache (spot_lookups E s1 ps) p = Some info
                \<and> spot_get_pair_info E (spot_lookups E s1 ps) p
                    = (Inr info, spot_lookups E s1 ps))"
      by (simp add: spot_hit)
  qed
  have b: "pair_info_cache t fp = None \<longrightarrow> futures_get_pair_info E t fp = (Inr finfo, t1)
      \<longrightarrow> length (requests t1) = length (requests t) + 1
          \<and> pair_info_cache t1 fp = Some finfo
          \<and> futures_get_pair_info E t1 fp = (Inr finfo, t1)
          \<and> (\<forall>ps. pair_info_cache (futures_lookups E t1 ps) fp = Some finfo
                \<and> futures_get_pair_info E (futures_lookups E t1 ps) fp
                    = (Inr finfo, futures_lookups E t1 ps))"
  proof (intro impI)
    assume n: "pair_info_cache t fp = None"
      and r: "futures_get_pair_info E t fp = (Inr finfo, t1)"
    from futures_miss[OF n r] have l: "length (requests t1) = length (requests t) + 1"
      and c: "pair_info_cache t1 fp = Some finfo" by auto
    from c have k: "\<forall>ps. pair_info_cache (futures_lookups E t1 ps) fp = Some finfo"
      by (simp add: futures_lookups_keep)
    from l c k show "length (requests t1) = length (requests t) + 1
          \<and> pair_info_cache t1 fp = Some finfo
          \<and> futures_get_pair_info E t1 fp = (Inr finfo, t1)
          \<and> (\<forall>ps. pair_info_cache (futures_lookups E t1 ps) fp = Some finfo
                \<and> futures_get_pair_info E (futures_lookups E t1 ps) fp
                    = (Inr finfo, futures_lookups E t1 ps))"
      by (simp add: futures_hit)
  qed
  from a b show ?thesis by blast
qed

lemmas info_eval = get_filter_from_symbol_info_def field_is_def py_iter_def py_len_def index0_def
  truthy_def py_assert_def get_precision_from_step_size_def py_int_def example_log10_def
  dec_div_def and_then_def one_symbol_def BinanceContractType_of_def

lemma example_spot_pair_info: "spot_pair_info example_env example_spot_info = Inr btc_info"
  by (simp add: spot_pair_info_def example_spot_info_def example_env_def btc_info_def info_eval
      payload_eval dec_eval)

lemma example_futures_pair_info:
  "futures_pair_info example_env abc_perpetual example_catalog = Inr abc_info"
  by (simp add: futures_pair_info_def example_catalog_def entry_def example_env_def abc_info_def
      abc_perpetual_def info_eval payload_eval dec_eval)

lemma example_spot_lookup:
  "spot_get_pair_info example_env new_exchange btc_usdt = (Inr btc_info, spot_after)"
proof -
  have "get_exchange_info example_env 0 (JStr ''BTCUSDT'') = Inr example_spot_info"
    "pair_to_order_book_symbol example_env btc_usdt = Inr ''BTCUSDT''"
    by (simp_all add: example_env_def btc_usdt_def pair_text_def)
  then show ?thesis
    by (simp add: spot_get_pair_info_def example_spot_pair_info spot_after_def new_exchange_def)
qed

lemma example_futures_lookup:
  "futures_get_pair_info example_env new_exchange abc_perpetual = (Inr abc_info, futures_after)"
proof -
  have "get_exchange_info example_env 0 JNull = Inr example_catalog"
    by (simp add: example_env_def)
  then show ?thesis
    by (simp add: futures_get_pair_info_def example_futures_pair_info futures_after_def
        new_exchange_def)
qed

theorem pair_info_cached_after_success_witness:
  "pair_info_cache (new_exchange :: unit SpotExchange) btc_usdt = None
   \<and> spot_get_pair_info example_env new_exchange btc_usdt = (Inr btc_info, spot_after)
   \<and> length (requests spot_after) = 1
   \<and> spot_get_pair_info example_env spot_after btc_usdt = (Inr btc_info, spot_after)
   \<and> pair_info_cache (spot_lookups example_env spot_after [eth_usdt, btc_usdt]) btc_usdt
     = Some btc_info
   \<and> pair_info_cache (new_exchange :: unit FuturesExchange) abc_perpetual = None
   \<and> futures_get_pair_info example_env new_exchange abc_perpetual = (Inr abc_info, futures_after)
   \<and> length (requests futures_after) = 1
   \<and> futures_get_pair_info example_env futures_after abc_perpetual = (Inr abc_info, futures_after)"
proof -
  have n: "pair_info_cache (new_exchange :: unit SpotExchange) btc_usdt = None"
    "pair_info_cache (new_exchange :: unit FuturesExchange) abc_perpetual = None"
    "length (requests (new_exchange :: unit SpotExchange)) = 0"
    "length (requests (new_exchange :: unit FuturesExchange)) = 0"
    by (simp_all add: new_exchange_def)
  note t = pair_info_cached_after_success[of new_exchange btc_usdt example_env btc_info spot_after
      new_exchange abc_perpetual abc_info futures_after]
  from t n example_spot_lookup have a: "length (requests spot_after) = 1"
    "spot_get_pair_info example_env spot_after btc_usdt = (Inr btc_info, spot_after)"
    "pair_info_cache (spot_lookups example_env spot_after [eth_usdt, btc_usdt]) btc_usdt
       = Some btc_info"
    by simp_all
  from t n example_futures_lookup have b: "length (requests futures_after) = 1"
    "futures_get_pair_info example_env futures_after abc_perpetual = (Inr abc_info, futures_after)"
    by simp_all
  from n example_spot_lookup example_futures_lookup a b show ?thesis by blast
qed

lemma floor_large_1:
  "\<lfloor>(99999999999999999999999999999::rat) / 10\<rfloor> = 9999999999999999999999999999"
  by (simp add: floor_eq_iff)

lemma floor_large_2:
  "\<lfloor>(10000000000000000000000000001::rat) / 10\<rfloor> = 1000000000000000000000000000"
  by (simp add: floor_eq_iff)

lemma dec_sub_rounds:
  "dec_sub 100000000000000000000000000000 1 = Inr 100000000000000000000000000000"
  by (simp add: dec_sub_def dec_eval floor_large_1)

lemma dec_add_rounds:
  "dec_add 10000000000000000000000000000 1 = Inr 10000000000000000000000000000"
  by (simp add: dec_add_def dec_eval floor_large_2)

lemma dec_add_first:
  "dec_add 0 10000000000000000000000000000 = Inr 10000000000000000000000000000"
  by (simp add: dec_add_def dec_eval)

text \<open>
  Claim C8, as stated, fails where the difference needs more than 28 significant digits:
  the context rounds it.  With \<^verbatim>\<open>origQty\<close> 1E+29 and \<^verbatim>\<open>executedQty\<close> 1 the remaining amount
  is 1E+29 again.
\<close>

theorem amount_remaining_rounds_counterexample:
  "OrderInfo_init large_order [] = Inr \<lparr>json = large_order, trades = [], fees = []\<rparr>
   \<and> amount large_order = Inr 100000000000000000000000000000
   \<and> amount_filled large_order = Inr 1
   \<and> amount_remaining \<lparr>json = large_order, trades = [], fees = []\<rparr>
     = Inr 100000000000000000000000000000
   \<and> (100000000000000000000000000000 :: rat) \<noteq> 100000000000000000000000000000 - 1"
proof -
  have a: "amount large_order = Inr 100000000000000000000000000000"
    by (simp add: amount_def large_order_def payload_eval)
  have f: "amount_filled large_order = Inr 1"
    by (simp add: amount_filled_def large_order_def payload_eval)
  have r: "amount_remaining \<lparr>json = large_order, trades = [], fees = []\<rparr>
     = Inr 100000000000000000000000000000"
    by (simp add: amount_remaining_def a f dec_sub_rounds)
  show ?thesis using a f r by (simp add: OrderInfo_init_def)
qed

text \<open>
  Claim C3, as stated, fails where a partial sum needs more than 28 significant digits: two
  commissions 1E+28 and 1 on one asset give the fee 1E+28.
\<close>

theorem fees_round_counterexample:
  "OrderInfo_init (JObj []) large_trades
     = Inr \<lparr>json = JObj [], trades = large_trades,
            fees = [(JStr ''BNB'', 10000000000000000000000000000)]\<rparr>
   \<and> map commission (filter (has_asset (JStr ''BNB'')) large_trades)
     = map Inr [10000000000000000000000000000, 1]
   \<and> (10000000000000000000000000000 :: rat) \<noteq> sum_list [10000000000000000000000000000, 1]"
proof -
  have c: "map commission large_trades = map Inr [10000000000000000000000000000, 1]"
    by (simp add: large_trades_def commission_def payload_eval)
  have h: "filter (has_asset (JStr ''BNB'')) large_trades = large_trades"
    by (simp add: large_trades_def has_asset_def commission_asset_def dict_key_def payload_eval)
  have i: "OrderInfo_init (JObj []) large_trades
     = Inr \<lparr>json = JObj [], trades = large_trades,
            fees = [(JStr ''BNB'', 10000000000000000000000000000)]\<rparr>"
    using c
    by (simp add: OrderInfo_init_def large_trades_def add_fee_def commission_asset_def
        dict_key_def defaultdict_getitem_def dec_add_rounds dec_add_first subscript_def)
  show ?thesis using c h i by simp
qed

end
